theory Spec2Isabelle
  imports Complex_Main "HOL-Library.Word"
begin

section \<open>Data model\<close>

text \<open>
  The two headers under verification are \<^verbatim>\<open>affine_invariant_feature.hpp\<close> (affine sampling,
  per-sample detection, merge) and \<^verbatim>\<open>result_matcher.hpp\<close> (ratio test, homography
  verification, parallel matching).

  Conventions of the embedding.
  \<^item> C++ \<^verbatim>\<open>float\<close> and \<^verbatim>\<open>double\<close> values are modelled as \<^typ>\<open>real\<close>: rounding, infinities and
    NaN are outside the model. The one floating-point comparison a property below
    depends on, \<^verbatim>\<open>(*m)[0].distance > 0.75 * (*m)[1].distance\<close>, promotes both
    \<^verbatim>\<open>float\<close> distances to \<^verbatim>\<open>double\<close>, where the product with 0.75 is exact, so on finite
    values the comparison is the comparison of the real numbers.
  \<^item> In/out reference parameters are modelled by passing the value on entry
    (suffix \<open>_in\<close>) and returning the value on exit.
  \<^item> A failed \<^verbatim>\<open>CV_Assert\<close> raises \<^verbatim>\<open>cv::Exception\<close>; an out-of-range \<^verbatim>\<open>operator[]\<close> is
    undefined behaviour. Both are results of the model, as values of \<open>cv_error\<close>.
\<close>

datatype cv_error = AssertionFailed | UndefinedBehaviour

type_synonym Point2f = "real \<times> real"

text \<open>\<^verbatim>\<open>cv::KeyPoint\<close>; the field \<^verbatim>\<open>size\<close> is \<open>size_kp\<close> here (\<open>size\<close> is a HOL constant).\<close>

record KeyPoint =
  pt :: Point2f
  size_kp :: real
  angle :: real
  response :: real
  octave :: int
  class_id :: int

text \<open>\<^verbatim>\<open>cv::DMatch\<close>.\<close>

record DMatch =
  queryIdx :: int
  trainIdx :: int
  imgIdx :: int
  distance :: real

text \<open>
  \<^verbatim>\<open>cv::Mat\<close>, restricted to two-dimensional matrices: the element type code, the number
  of columns, and the rows in order (each row the list of its channel values). The
  number of rows is the length of the row list. \<^verbatim>\<open>Mat::empty()\<close> holds when the matrix
  has no element. A matrix that was never allocated (\<^verbatim>\<open>dims == 0\<close>) has no rows and no
  columns.
\<close>

record Mat =
  Mat_type :: int
  Mat_cols :: nat
  Mat_data :: "real list list"

definition Mat_rows :: "Mat \<Rightarrow> nat" where
  "Mat_rows m = length (Mat_data m)"

definition Mat_empty :: "Mat \<Rightarrow> bool" where
  "Mat_empty m = (Mat_rows m = 0 \<or> Mat_cols m = 0)"

text \<open>A default-constructed \<^verbatim>\<open>cv::Mat()\<close>.\<close>

definition Mat_default :: Mat where
  "Mat_default = \<lparr>Mat_type = 0, Mat_cols = 0, Mat_data = []\<rparr>"

definition CV_8UC1 :: int where
  "CV_8UC1 = 0"

text \<open>\<^verbatim>\<open>CV_MAT_CN(type)\<close>: the number of channels a type code stands for.\<close>

definition CV_MAT_CN :: "int \<Rightarrow> int" where
  "CV_MAT_CN ty = (ty div 8) mod 512 + 1"

text \<open>\<^verbatim>\<open>cv::Mat(size, type, s)\<close>: every element set to the scalar \<open>s\<close>.\<close>

definition Mat_filled :: "nat \<times> nat \<Rightarrow> int \<Rightarrow> real \<Rightarrow> Mat" where
  "Mat_filled sz ty s =
     \<lparr>Mat_type = ty, Mat_cols = fst sz, Mat_data = replicate (snd sz) (replicate (fst sz) s)\<rparr>"

text \<open>\<^verbatim>\<open>Mat::size()\<close> as (width, height).\<close>

definition Mat_size :: "Mat \<Rightarrow> nat \<times> nat" where
  "Mat_size m = (Mat_cols m, Mat_rows m)"

text \<open>
  \<^verbatim>\<open>cv::Matx<float, m, n>\<close> is the array \<^verbatim>\<open>val\<close> of its \<open>m * n\<close> entries in row-major order, and
  \<^verbatim>\<open>operator()(i, j)\<close> is \<^verbatim>\<open>val[i * n + j]\<close>; its bounds assertion is compiled in debug
  builds only. \<^verbatim>\<open>Matx32f\<close>, the type the source declares the affine map with, has three
  rows and two columns; \<^verbatim>\<open>Matx33f\<close>, the homography, three and three. The source
  addresses the affine map at (0, 2) and (1, 2), which in a \<^verbatim>\<open>Matx32f\<close> are \<^verbatim>\<open>val[2]\<close> and
  \<^verbatim>\<open>val[4]\<close>. What the OpenCV routines make of the matrix is left to them.
\<close>

type_synonym Matx32f = "real list"

type_synonym Matx33f = "real list"

definition Matx32f_eye :: Matx32f where
  "Matx32f_eye = [1, 0, 0, 1, 0, 0]"

definition Matx33f_eye :: Matx33f where
  "Matx33f_eye = [1, 0, 0, 0, 1, 0, 0, 0, 1]"

definition Matx32f_at :: "Matx32f \<Rightarrow> nat \<Rightarrow> nat \<Rightarrow> real" where
  "Matx32f_at a i j = a ! (i * 2 + j)"

definition Matx32f_set :: "Matx32f \<Rightarrow> nat \<Rightarrow> nat \<Rightarrow> real \<Rightarrow> Matx32f" where
  "Matx32f_set a i j v = a[i * 2 + j := v]"

record Rect =
  rect_x :: int
  rect_y :: int
  rect_width :: int
  rect_height :: int

definition INTER_NEAREST :: int where "INTER_NEAREST = 0"
definition INTER_LINEAR :: int where "INTER_LINEAR = 1"
definition BORDER_CONSTANT :: int where "BORDER_CONSTANT = 0"
definition BORDER_REPLICATE :: int where "BORDER_REPLICATE = 1"
definition RANSAC :: int where "RANSAC = 8"

text \<open>
  The OpenCV routines the two headers call are not part of the repository. The
  routines on images and points are parameters of the model, collected in one record
  of total, deterministic functions: nothing is assumed about what they compute. An
  exception thrown by one of them would leave \<^verbatim>\<open>detectAndCompute\<close> as it is thrown and is
  outside the model; the one exception the source catches, that of
  \<^verbatim>\<open>cv::findHomography\<close>, is modelled further below. The bookkeeping of \<^verbatim>\<open>cv::Mat\<close> that
  the merge relies on (\<^verbatim>\<open>create\<close>, \<^verbatim>\<open>rowRange\<close>, \<^verbatim>\<open>copyTo\<close>) is modelled in the next section,
  with its assertions. \<open>uninitialized r\<close> is what a freshly allocated matrix holds in
  row \<open>r\<close> before anything is written to it, and \<open>convertTo from to row\<close> is the element
  conversion of \<^verbatim>\<open>Mat::convertTo\<close> on one row, from one type code to another.
\<close>

record OpenCV =
  getRotationMatrix2D :: "Point2f \<Rightarrow> real \<Rightarrow> real \<Rightarrow> Matx32f"
  transform_points :: "Point2f list \<Rightarrow> Matx32f \<Rightarrow> Point2f list"
  boundingRect :: "Point2f list \<Rightarrow> Rect"
  warpAffine :: "Mat \<Rightarrow> Matx32f \<Rightarrow> int \<times> int \<Rightarrow> int \<Rightarrow> int \<Rightarrow> Mat"
  GaussianBlur :: "Mat \<Rightarrow> int \<times> int \<Rightarrow> real \<Rightarrow> real \<Rightarrow> Mat"
  resize :: "Mat \<Rightarrow> int \<times> int \<Rightarrow> real \<Rightarrow> real \<Rightarrow> int \<Rightarrow> Mat"
  invertAffineTransform :: "Matx32f \<Rightarrow> Matx32f"
  transform_Vec2f :: "Point2f \<Rightarrow> Matx32f \<Rightarrow> Point2f"
  uninitialized :: "nat \<Rightarrow> real list"
  convertTo :: "int \<Rightarrow> int \<Rightarrow> real list \<Rightarrow> real list"

text \<open>
  The feature backend, \<^verbatim>\<open>cv::Feature2D::detectAndCompute(image, mask, keypoints,
  descriptors, useProvidedKeypoints)\<close>: from the image, the mask, the keypoints on
  entry and the flag to the keypoints and descriptors on exit.
\<close>

type_synonym Feature2D = "Mat \<Rightarrow> Mat \<Rightarrow> KeyPoint list \<Rightarrow> bool \<Rightarrow> KeyPoint list \<times> Mat"

section \<open>Shared helpers: vectors, matrices, the parallel loop\<close>

text \<open>
  \<^verbatim>\<open>std::vector::resize(n, v)\<close>: the first \<open>n\<close> elements are kept, and the vector is
  padded with copies of \<open>v\<close> up to length \<open>n\<close>.
\<close>

definition vector_resize :: "'a list \<Rightarrow> nat \<Rightarrow> 'a \<Rightarrow> 'a list" where
  "vector_resize xs n v = take n xs @ replicate (n - length xs) v"

text \<open>
  \<^verbatim>\<open>OutputArray::create(rows, cols, type)\<close> on a matrix: a matrix that already has the
  shape and type is left alone, any other is reallocated and its rows are
  uninitialized.
\<close>

definition Mat_create :: "OpenCV \<Rightarrow> Mat \<Rightarrow> nat \<Rightarrow> nat \<Rightarrow> int \<Rightarrow> Mat" where
  "Mat_create cv m nrows ncols ty =
     (if Mat_rows m = nrows \<and> Mat_cols m = ncols \<and> Mat_type m = ty then m
      else \<lparr>Mat_type = ty, Mat_cols = ncols, Mat_data = map (uninitialized cv) [0..<nrows]\<rparr>)"

text \<open>
  \<^verbatim>\<open>src.copyTo(dst.rowRange(startrow, startrow + src.rows))\<close>, by the steps OpenCV (4.x)
  takes.
  \<^item> \<^verbatim>\<open>rowRange\<close> constructs a header on the rows of \<open>dst\<close>. The constructor asserts
    \<^verbatim>\<open>m.dims >= 2\<close> and that the range ends inside \<open>dst\<close>. A matrix that was never
    allocated has no rows, and for it every branch below is the failed assertion, so
    the first assertion needs no branch of its own.
  \<^item> The header is a temporary, so \<^verbatim>\<open>copyTo\<close> receives it as an output array of fixed
    size and fixed type. When the types differ, \<^verbatim>\<open>copyTo\<close> asserts
    \<^verbatim>\<open>channels() == CV_MAT_CN(dtype)\<close> and hands over to \<^verbatim>\<open>convertTo\<close>.
  \<^item> From an empty source both \<^verbatim>\<open>copyTo\<close> and \<^verbatim>\<open>convertTo\<close> call \<^verbatim>\<open>release()\<close> on the
    output array, which asserts \<^verbatim>\<open>!fixedSize()\<close>: the assertion fails.
  \<^item> Otherwise they call \<^verbatim>\<open>create\<close> with the source's size, which on a fixed-size
    array asserts that this is the size it has. The header has the source's number of
    rows by construction, so the assertion is that the widths agree.
  \<^item> Then the rows of the source, converted when the types differ, are written through
    the header into \<open>dst\<close>.
\<close>

definition copyTo_rowRange :: "OpenCV \<Rightarrow> Mat \<Rightarrow> Mat \<Rightarrow> nat \<Rightarrow> cv_error + Mat" where
  "copyTo_rowRange cv src dst startrow =
     (let endrow = startrow + Mat_rows src in
      if Mat_rows dst < endrow then Inl AssertionFailed
      else if Mat_type src \<noteq> Mat_type dst \<and> CV_MAT_CN (Mat_type src) \<noteq> CV_MAT_CN (Mat_type dst)
      then Inl AssertionFailed
      else if Mat_empty src then Inl AssertionFailed
      else if Mat_cols src \<noteq> Mat_cols dst then Inl AssertionFailed
      else Inr (dst\<lparr>Mat_data :=
                  take startrow (Mat_data dst)
                  @ (if Mat_type src = Mat_type dst then Mat_data src
                     else map (convertTo cv (Mat_type src) (Mat_type dst)) (Mat_data src))
                  @ drop endrow (Mat_data dst)\<rparr>))"

text \<open>
  \<^verbatim>\<open>cv::parallel_for_(cv::Range(0, ntasks), body)\<close> (here \<open>parallel_for\<close>: a name cannot end
  in an underscore, which is also why the members \<^verbatim>\<open>base_feature_\<close>, \<^verbatim>\<open>reference_\<close> and
  \<^verbatim>\<open>matcher_\<close> lose theirs) with the loop body of
  \<^verbatim>\<open>ParallelLoopBody::operator()\<close>: \<^verbatim>\<open>if (tasks[i]) tasks[i]();\<close>. Every task is a
  closure over references into the shared output arrays, so a task is a function on
  the state \<open>'s\<close> of those arrays; an empty \<^verbatim>\<open>boost::function\<close> is \<open>None\<close>. OpenCV
  invokes the body once for each index of the range, in an order it chooses; that
  order is the argument \<open>sched\<close>. Since each task writes only its own slots, running
  the tasks one after the other in the order \<open>sched\<close> covers every interleaving.
\<close>

fun parallel_for :: "nat list \<Rightarrow> ('s \<Rightarrow> cv_error + 's) option list \<Rightarrow> 's \<Rightarrow> cv_error + 's" where
  "parallel_for [] tasks s = Inr s"
| "parallel_for (i # sched) tasks s =
     (case tasks ! i of
        None \<Rightarrow> parallel_for sched tasks s
      | Some task \<Rightarrow>
          (case task s of
             Inl e \<Rightarrow> Inl e
           | Inr s' \<Rightarrow> parallel_for sched tasks s'))"

text \<open>A schedule of \<^verbatim>\<open>cv::Range(0, ntasks)\<close>: each index of the range exactly once.\<close>

definition schedule_of :: "nat \<Rightarrow> nat list \<Rightarrow> bool" where
  "schedule_of ntasks sched = (distinct sched \<and> set sched = {0..<ntasks})"

section \<open>AffineInvariantFeature\<close>

subsection \<open>The affine sample plan\<close>

text \<open>
  The inner loop of the parameter generation in \<^verbatim>\<open>detectAndCompute\<close>,
  \<^verbatim>\<open>for (double phi = 0.; phi < 180.; phi += 72. / tilt)\<close> with
  \<^verbatim>\<open>tilt = std::pow(2., 0.5 * i)\<close>, appending to the two parameter vectors.
\<close>

function phi_loop :: "nat \<Rightarrow> real \<Rightarrow> real list \<times> real list \<Rightarrow> real list \<times> real list" where
  "phi_loop i phi (tilt_params, phi_params) =
     (let tilt = 2 powr (0.5 * real i) in
      if phi < 180
      then phi_loop i (phi + 72 / tilt) (tilt_params @ [tilt], phi_params @ [phi])
      else (tilt_params, phi_params))"
  by pat_completeness auto

termination
proof (relation "measure (\<lambda>(i, phi, acc). nat \<lceil>(180 - phi) * 2 powr (0.5 * real i) / 72\<rceil>)")
  show "wf (measure (\<lambda>(i, phi, acc). nat \<lceil>(180 - phi) * 2 powr (0.5 * real i) / 72\<rceil>))"
    by simp
next
  fix i :: nat and phi :: real and tilt_params phi_params :: "real list" and tilt :: real
  assume t: "tilt = 2 powr (0.5 * real i)" and lt: "phi < 180"
  define x where "x = (180 - phi) * tilt / 72"
  have tpos: "0 < tilt" using t by simp
  have step: "(180 - (phi + 72 / tilt)) * tilt / 72 = x - 1"
    using tpos by (simp add: x_def field_simps)
  have "0 < x" using tpos lt by (simp add: x_def)
  then have "1 \<le> \<lceil>x\<rceil>" by linarith
  moreover have "\<lceil>x - 1\<rceil> = \<lceil>x\<rceil> - 1" by linarith
  ultimately have "nat \<lceil>x - 1\<rceil> < nat \<lceil>x\<rceil>" by linarith
  then have "nat \<lceil>(180 - (phi + 72 / tilt)) * tilt / 72\<rceil> < nat \<lceil>(180 - phi) * tilt / 72\<rceil>"
    unfolding step unfolding x_def .
  then show "((i, phi + 72 / tilt, tilt_params @ [tilt], phi_params @ [phi]), (i, phi, tilt_params, phi_params))
       \<in> measure (\<lambda>(i, phi, acc). nat \<lceil>(180 - phi) * 2 powr (0.5 * real i) / 72\<rceil>)"
    using t by simp
qed

text \<open>
  The whole parameter generation: the identity sample is pushed first, then the
  outer loop \<^verbatim>\<open>for (int i = 1; i < 6; ++i)\<close> runs the inner loop from \<open>phi = 0\<close>. The
  result is the pair (\<^verbatim>\<open>tilt_params\<close>, \<^verbatim>\<open>phi_params\<close>).
\<close>

definition sample_params :: "real list \<times> real list" where
  "sample_params = fold (\<lambda>i acc. phi_loop i 0 acc) [1..<6] ([1], [0])"

subsection \<open>Per-sample detection\<close>

text \<open>
  The first part of \<^verbatim>\<open>AffineInvariantFeature::detectAndComputeImpl\<close>, up to the backend
  call: the affine map of the sample, the warped image and the warped mask. A rotation
  is applied only when \<open>phi\<close> is not 0, blur and horizontal shrinking only when \<open>tilt\<close> is
  not 1; an empty mask is replaced by a full-validity mask of the source image's size;
  the mask is warped only when the image was.
\<close>

definition warp_sample :: "OpenCV \<Rightarrow> Mat \<Rightarrow> Mat \<Rightarrow> real \<Rightarrow> real \<Rightarrow> Matx32f \<times> Mat \<times> Mat" where
  "warp_sample cv src_image src_mask tilt phi =
     (let
        (affine1, image1) =
          (if phi \<noteq> 0
           then
             (let rotation = getRotationMatrix2D cv (0, 0) phi 1;
                  corners = [(0, 0), (real (Mat_cols src_image), 0),
                             (real (Mat_cols src_image), real (Mat_rows src_image)),
                             (0, real (Mat_rows src_image))];
                  tmp_corners = transform_points cv corners rotation;
                  tmp_rect = boundingRect cv tmp_corners;
                  shifted = Matx32f_set rotation 0 2 (- real_of_int (rect_x tmp_rect));
                  affine = Matx32f_set shifted 1 2 (- real_of_int (rect_y tmp_rect))
              in (affine,
                  warpAffine cv src_image affine (rect_width tmp_rect, rect_height tmp_rect)
                    INTER_LINEAR BORDER_REPLICATE))
           else (Matx32f_eye, src_image));
        (affine2, image2) =
          (if tilt \<noteq> 1
           then
             (let blurred = GaussianBlur cv image1 (0, 0) (0.8 * sqrt (tilt * tilt - 1)) 0.01;
                  shrunk = resize cv blurred (0, 0) (1 / tilt) 1 INTER_NEAREST;
                  scaled0 = Matx32f_set affine1 0 0 (Matx32f_at affine1 0 0 / tilt);
                  scaled1 = Matx32f_set scaled0 0 1 (Matx32f_at scaled0 0 1 / tilt);
                  scaled2 = Matx32f_set scaled1 0 2 (Matx32f_at scaled1 0 2 / tilt)
              in (scaled2, shrunk))
           else (affine1, image1));
        mask1 = (if Mat_empty src_mask then Mat_filled (Mat_size src_image) CV_8UC1 255
                 else src_mask);
        mask2 =
          (if phi \<noteq> 0 \<or> tilt \<noteq> 1
           then warpAffine cv mask1 affine2
                  (int (Mat_cols image2), int (Mat_rows image2)) INTER_NEAREST BORDER_CONSTANT
           else mask1)
      in (affine2, image2, mask2))"

text \<open>
  The last part of \<^verbatim>\<open>detectAndComputeImpl\<close>, "invert the positions of the detected
  keypoints": \<^verbatim>\<open>cv::invertAffineTransform(affine, invert_affine)\<close>, then every
  keypoint's position is replaced by its image under \<^verbatim>\<open>cv::transform\<close> with
  \<^verbatim>\<open>invert_affine\<close>.
\<close>

definition invert_keypoints :: "OpenCV \<Rightarrow> Matx32f \<Rightarrow> KeyPoint list \<Rightarrow> KeyPoint list" where
  "invert_keypoints cv affine detected =
     (let invert_affine = invertAffineTransform cv affine
      in map (\<lambda>keypoint. keypoint\<lparr>pt := transform_Vec2f cv (pt keypoint) invert_affine\<rparr>) detected)"

text \<open>
  \<^verbatim>\<open>AffineInvariantFeature::detectAndComputeImpl\<close>. \<open>keypoints_in\<close> is the content of the
  task's keypoint slot on entry; it is handed to the backend as it is, together with
  the flag.
\<close>

definition detectAndComputeImpl ::
  "OpenCV \<Rightarrow> Feature2D option \<Rightarrow> Mat \<Rightarrow> Mat \<Rightarrow> KeyPoint list \<Rightarrow> real \<Rightarrow> real \<Rightarrow> bool
     \<Rightarrow> cv_error + (KeyPoint list \<times> Mat)" where
  "detectAndComputeImpl cv base_feature src_image src_mask keypoints_in tilt phi useProvidedKeypoints =
     (case base_feature of
        None \<Rightarrow> Inl AssertionFailed
      | Some base \<Rightarrow>
          (let (affine, warped_image, warped_mask) = warp_sample cv src_image src_mask tilt phi;
               (keypoints1, descriptors1) =
                 base warped_image warped_mask keypoints_in useProvidedKeypoints
           in Inr (invert_keypoints cv affine keypoints1, descriptors1)))"

subsection \<open>Parallel detection and merge\<close>

text \<open>
  The last loop of \<^verbatim>\<open>detectAndCompute\<close>: each per-sample matrix, empty or not, is copied
  to the row range of the output that starts where the previous one ended.
\<close>

fun copy_descriptors :: "OpenCV \<Rightarrow> Mat list \<Rightarrow> nat \<Rightarrow> Mat \<Rightarrow> cv_error + Mat" where
  "copy_descriptors cv [] nrows descriptors_mat = Inr descriptors_mat"
| "copy_descriptors cv (d # ds) nrows descriptors_mat =
     (case copyTo_rowRange cv d descriptors_mat nrows of
        Inl e \<Rightarrow> Inl e
      | Inr descriptors_mat' \<Rightarrow> copy_descriptors cv ds (nrows + Mat_rows d) descriptors_mat')"

text \<open>
  The task-binding loop of \<^verbatim>\<open>detectAndCompute\<close>. The state of the parallel loop is the
  list of output slots (\<^verbatim>\<open>keypoints_array[i]\<close>, \<^verbatim>\<open>descriptors_array[i]\<close>); task \<open>i\<close> runs
  \<open>detectAndComputeImpl\<close> on the references to slot \<open>i\<close> with the parameters
  \<^verbatim>\<open>tilt_params[i]\<close>, \<^verbatim>\<open>phi_params[i]\<close> and the caller's flag.
\<close>

definition detect_tasks ::
  "OpenCV \<Rightarrow> Feature2D option \<Rightarrow> Mat \<Rightarrow> Mat \<Rightarrow> real list \<Rightarrow> real list \<Rightarrow> bool
     \<Rightarrow> ((KeyPoint list \<times> Mat) list \<Rightarrow> cv_error + (KeyPoint list \<times> Mat) list) option list" where
  "detect_tasks cv base_feature image_mat mask_mat tilt_params phi_params useProvidedKeypoints =
     map (\<lambda>i. Some (\<lambda>slots.
            case detectAndComputeImpl cv base_feature image_mat mask_mat (fst (slots ! i))
                   (tilt_params ! i) (phi_params ! i) useProvidedKeypoints of
              Inl e \<Rightarrow> Inl e
            | Inr slot \<Rightarrow> Inr (slots[i := slot])))
       [0..<length tilt_params]"

text \<open>
  The part of \<^verbatim>\<open>detectAndCompute\<close> after the parallel loop, up to the copy loop: what the
  caller's two output arguments hold when the copy loop starts. The keypoints are
  cleared and refilled with the concatenation of the slots' keypoints. The output
  matrix is created only if some slot's matrix is not empty, with the width and type
  of the first such slot; otherwise it is the caller's matrix as passed in.
\<close>

definition prepare_outputs ::
  "OpenCV \<Rightarrow> Mat \<Rightarrow> (KeyPoint list \<times> Mat) list \<Rightarrow> KeyPoint list \<times> Mat" where
  "prepare_outputs cv descriptors_in slots =
     (let keypoints_array = map fst slots;
          descriptors_array = map snd slots;
          keypoints = concat keypoints_array
      in (keypoints,
          case find (\<lambda>d. \<not> Mat_empty d) descriptors_array of
            None \<Rightarrow> descriptors_in
          | Some d \<Rightarrow> Mat_create cv descriptors_in (length keypoints) (Mat_cols d) (Mat_type d)))"

text \<open>
  The whole of \<^verbatim>\<open>detectAndCompute\<close> after the parallel loop: the outputs are prepared,
  then the copy loop runs over all slots. An assertion that fails in the copy loop
  leaves the function as an exception.
\<close>

definition merge_slots ::
  "OpenCV \<Rightarrow> Mat \<Rightarrow> (KeyPoint list \<times> Mat) list \<Rightarrow> cv_error + (KeyPoint list \<times> Mat)" where
  "merge_slots cv descriptors_in slots =
     (let (keypoints, descriptors) = prepare_outputs cv descriptors_in slots
      in
        case copy_descriptors cv (map snd slots) 0 descriptors of
          Inl e \<Rightarrow> Inl e
        | Inr descriptors_mat \<Rightarrow> Inr (keypoints, descriptors_mat))"

text \<open>
  \<^verbatim>\<open>AffineInvariantFeature::detectAndCompute\<close>. \<open>keypoints_in\<close> and \<open>descriptors_in\<close> are
  what the caller's output arguments hold on entry; \<open>image_mat\<close> and \<open>mask_mat\<close> are the
  matrices extracted from the input arguments. The caller's keypoints are cleared
  without being read.
\<close>

definition detectAndCompute ::
  "OpenCV \<Rightarrow> Feature2D option \<Rightarrow> nat list \<Rightarrow> Mat \<Rightarrow> Mat \<Rightarrow> KeyPoint list \<Rightarrow> Mat \<Rightarrow> bool
     \<Rightarrow> cv_error + (KeyPoint list \<times> Mat)" where
  "detectAndCompute cv base_feature sched image_mat mask_mat keypoints_in descriptors_in useProvidedKeypoints =
     (case base_feature of
        None \<Rightarrow> Inl AssertionFailed
      | Some _ \<Rightarrow>
          (let (tilt_params, phi_params) = sample_params;
               ntasks = length tilt_params;
               slots = replicate ntasks ([], Mat_default);
               tasks = detect_tasks cv base_feature image_mat mask_mat tilt_params phi_params
                         useProvidedKeypoints
           in
             case parallel_for sched tasks slots of
               Inl e \<Rightarrow> Inl e
             | Inr slots' \<Rightarrow> merge_slots cv descriptors_in slots'))"

text \<open>
  What the per-sample detections return, in sample-plan order: entry \<open>i\<close> is the result
  of \<open>detectAndComputeImpl\<close> for (\<^verbatim>\<open>tilt_params[i]\<close>, \<^verbatim>\<open>phi_params[i]\<close>) on an empty keypoint
  slot.
\<close>

definition per_sample_outputs ::
  "OpenCV \<Rightarrow> Feature2D \<Rightarrow> Mat \<Rightarrow> Mat \<Rightarrow> bool \<Rightarrow> (KeyPoint list \<times> Mat) list" where
  "per_sample_outputs cv base image_mat mask_mat useProvidedKeypoints =
     map (\<lambda>i. projr (detectAndComputeImpl cv (Some base) image_mat mask_mat []
                       (fst sample_params ! i) (snd sample_params ! i) useProvidedKeypoints))
       [0..<length (fst sample_params)]"

text \<open>
  The contract of the backend on a list of per-sample outputs: every output has one
  descriptor row per keypoint, an output with rows has at least one column, and any
  two outputs with rows agree on width and type.
\<close>

definition backend_contract :: "(KeyPoint list \<times> Mat) list \<Rightarrow> bool" where
  "backend_contract outs =
     (list_all (\<lambda>(kps, d). length kps = Mat_rows d \<and> (Mat_rows d = 0 \<or> 0 < Mat_cols d)) outs
      \<and> list_all (\<lambda>(kps, d). list_all (\<lambda>(kps', d').
             Mat_rows d = 0 \<or> Mat_rows d' = 0
             \<or> (Mat_type d = Mat_type d' \<and> Mat_cols d = Mat_cols d')) outs) outs)"

section \<open>ResultMatcher\<close>

text \<open>
  Modelled from the spec: \<^verbatim>\<open>results.hpp\<close> is not among the sources. A \<open>Results\<close> object is
  the bundle of keypoints, descriptor matrix and distance-metric tag, with the member
  names \<^verbatim>\<open>result_matcher.hpp\<close> uses.
\<close>

record Results =
  keypoints :: "KeyPoint list"
  descriptors :: Mat
  normType :: int

text \<open>
  A \<^verbatim>\<open>ResultMatcher\<close> after construction: the reference it was built from and the trained
  \<^verbatim>\<open>cv::DescriptorMatcher\<close>, given by its \<^verbatim>\<open>knnMatch(queryDescriptors, matches, k)\<close>.
\<close>

record ResultMatcher =
  reference :: Results
  matcher :: "Mat \<Rightarrow> nat \<Rightarrow> DMatch list list"

text \<open>
  An outcome of \<^verbatim>\<open>transform = cv::findHomography(source_points, reference_points,
  cv::RANSAC, 5., mask)\<close> inside the \<^verbatim>\<open>try\<close> block: either the assignment completes, with the
  transform and the inlier mask, or a \<^verbatim>\<open>cv::Exception\<close> is thrown, with whatever the
  call had left in \<^verbatim>\<open>mask\<close>, which the caller passed in empty.
\<close>

datatype Homography = Returned Matx33f "8 word list" | Threw "8 word list"

type_synonym findHomography = "Point2f list \<Rightarrow> Point2f list \<Rightarrow> int \<Rightarrow> real \<Rightarrow> Homography"

text \<open>
  The ratio-test loop of \<^verbatim>\<open>ResultMatcher::match\<close> over \<^verbatim>\<open>all_matches\<close>; the result is the
  vector \<^verbatim>\<open>unique_matches\<close>.
\<close>

fun unique_matches :: "DMatch list list \<Rightarrow> DMatch list" where
  "unique_matches [] = []"
| "unique_matches (m # all_matches) =
     (if length m < 2 then unique_matches all_matches
      else if distance (m ! 0) > 0.75 * distance (m ! 1) then unique_matches all_matches
      else (m ! 0) # unique_matches all_matches)"

text \<open>\<^verbatim>\<open>v[i]\<close> for a signed index: defined inside the vector only.\<close>

definition at_index :: "'a list \<Rightarrow> int \<Rightarrow> 'a option" where
  "at_index xs i = (if 0 \<le> i \<and> i < int (length xs) then Some (xs ! nat i) else None)"

text \<open>
  The loop collecting \<^verbatim>\<open>source_points\<close> and \<^verbatim>\<open>reference_points\<close>; \<open>None\<close> when an index
  of a match lies outside the keypoint vector it refers to.
\<close>

fun collect_points ::
  "KeyPoint list \<Rightarrow> KeyPoint list \<Rightarrow> DMatch list \<Rightarrow> (Point2f list \<times> Point2f list) option" where
  "collect_points source_keypoints reference_keypoints [] = Some ([], [])"
| "collect_points source_keypoints reference_keypoints (m # ms) =
     (case (at_index source_keypoints (queryIdx m), at_index reference_keypoints (trainIdx m)) of
        (Some s, Some r) \<Rightarrow>
          (case collect_points source_keypoints reference_keypoints ms of
             Some (source_points, reference_points) \<Rightarrow>
               Some (pt s # source_points, pt r # reference_points)
           | None \<Rightarrow> None)
      | _ \<Rightarrow> None)"

text \<open>
  The final packing loop: match \<open>i\<close> is kept when \<^verbatim>\<open>mask[i]\<close> is not zero. Reading
  \<^verbatim>\<open>mask[i]\<close> beyond the end of the mask is undefined behaviour.
\<close>

definition pack_matches :: "DMatch list \<Rightarrow> 8 word list \<Rightarrow> cv_error + DMatch list" where
  "pack_matches unique inlier_mask =
     (if length inlier_mask < length unique then Inl UndefinedBehaviour
      else Inr (map fst (filter (\<lambda>(m, flag). flag \<noteq> 0) (zip unique inlier_mask))))"

text \<open>
  \<^verbatim>\<open>ResultMatcher::match\<close>. The outputs \<^verbatim>\<open>transform\<close> and \<^verbatim>\<open>matches\<close> are reset first, so
  what they held on entry does not matter and they are results only.
\<close>

definition match ::
  "findHomography \<Rightarrow> ResultMatcher \<Rightarrow> Results \<Rightarrow> cv_error + (Matx33f \<times> DMatch list)" where
  "match find_homography this source =
     (let all_matches = matcher this (descriptors source) 2;
          unique = unique_matches all_matches
      in
        if length unique < 4 then Inr (Matx33f_eye, [])
        else
          (case collect_points (keypoints source) (keypoints (reference this)) unique of
             None \<Rightarrow> Inl UndefinedBehaviour
           | Some (source_points, reference_points) \<Rightarrow>
               (case find_homography source_points reference_points RANSAC 5 of
                  Returned transform inlier_mask \<Rightarrow>
                    (case pack_matches unique inlier_mask of
                       Inl e \<Rightarrow> Inl e
                     | Inr matches \<Rightarrow> Inr (transform, matches))
                | Threw inlier_mask \<Rightarrow>
                    (case pack_matches unique
                            (vector_resize inlier_mask (length source_points) 0) of
                       Inl e \<Rightarrow> Inl e
                     | Inr matches \<Rightarrow> Inr (Matx33f_eye, matches)))))"

text \<open>
  The task-populating loop of \<^verbatim>\<open>ResultMatcher::parallelMatch\<close>: a task is bound for every
  non-null matcher; it runs \<open>match\<close> on the references \<^verbatim>\<open>transforms[i]\<close> and
  \<^verbatim>\<open>matches_array[i]\<close>. The state of the parallel loop is the pair of output vectors.

  Modelled from the spec: \<^verbatim>\<open>parallel_tasks.hpp\<close> is not among the sources. \<^verbatim>\<open>ParallelTasks\<close>
  is taken to be the vector of optional tasks that \<^verbatim>\<open>ParallelLoopBody\<close> of
  \<^verbatim>\<open>affine_invariant_feature.hpp\<close> is: a task that was never assigned is skipped.
\<close>

definition match_tasks ::
  "findHomography \<Rightarrow> ResultMatcher option list \<Rightarrow> Results
     \<Rightarrow> (Matx33f list \<times> DMatch list list \<Rightarrow> cv_error + Matx33f list \<times> DMatch list list) option list" where
  "match_tasks find_homography matchers source =
     map (\<lambda>i. case matchers ! i of
              None \<Rightarrow> None
            | Some m \<Rightarrow>
                Some (\<lambda>(transforms, matches_array).
                  case match find_homography m source of
                    Inl e \<Rightarrow> Inl e
                  | Inr (transform, matches) \<Rightarrow>
                      Inr (transforms[i := transform], matches_array[i := matches])))
       [0..<length matchers]"

text \<open>
  \<^verbatim>\<open>ResultMatcher::parallelMatch\<close>. \<open>transforms_in\<close> and \<open>matches_array_in\<close> are what the
  caller's output vectors hold on entry; a null \<^verbatim>\<open>cv::Ptr\<close> in \<open>matchers\<close> is \<open>None\<close>. The
  \<^verbatim>\<open>nstripes\<close> hint only tells OpenCV how to group the indices, which the schedule
  stands for.
\<close>

definition parallelMatch ::
  "findHomography \<Rightarrow> nat list \<Rightarrow> ResultMatcher option list \<Rightarrow> Results \<Rightarrow> Matx33f list
     \<Rightarrow> DMatch list list \<Rightarrow> cv_error + (Matx33f list \<times> DMatch list list)" where
  "parallelMatch find_homography sched matchers source transforms_in matches_array_in =
     (let ntasks = length matchers;
          transforms = vector_resize transforms_in ntasks Matx33f_eye;
          matches_array = vector_resize matches_array_in ntasks [];
          tasks = match_tasks find_homography matchers source
      in parallel_for sched tasks (transforms, matches_array))"

text \<open>Every non-null matcher's \<open>match\<close> call on the source returns (none runs into undefined behaviour).\<close>

definition matches_succeed :: "findHomography \<Rightarrow> ResultMatcher option list \<Rightarrow> Results \<Rightarrow> bool" where
  "matches_succeed find_homography matchers source =
     list_all (\<lambda>entry. case entry of None \<Rightarrow> True
                        | Some m \<Rightarrow> \<not> isl (match find_homography m source)) matchers"

section \<open>Example inputs\<close>

text \<open>Concrete inputs on which the theorems below are instantiated.\<close>

definition example_keypoint :: "real \<Rightarrow> real \<Rightarrow> KeyPoint" where
  "example_keypoint px py =
     \<lparr>pt = (px, py), size_kp = 1, angle = 0, response = 0, octave = 0, class_id = 0\<rparr>"

definition example_results :: Results where
  "example_results =
     \<lparr>keypoints = [example_keypoint 0 0, example_keypoint 1 0, example_keypoint 0 1, example_keypoint 1 1],
      descriptors = \<lparr>Mat_type = 5, Mat_cols = 1, Mat_data = [[0], [1], [2], [3]]\<rparr>,
      normType = 4\<rparr>"

text \<open>A query row's two nearest neighbours: reference row \<open>i\<close> at distance 1, another at distance 2.\<close>

definition example_row :: "int \<Rightarrow> DMatch list" where
  "example_row i =
     [\<lparr>queryIdx = i, trainIdx = i, imgIdx = 0, distance = 1\<rparr>,
      \<lparr>queryIdx = i, trainIdx = (i + 1) mod 4, imgIdx = 0, distance = 2\<rparr>]"

definition example_matcher :: ResultMatcher where
  "example_matcher =
     \<lparr>reference = example_results,
      matcher = (\<lambda>query k. [example_row 0, example_row 1, example_row 2, example_row 3])\<rparr>"

text \<open>A matcher whose index finds a single neighbour for a single row.\<close>

definition example_sparse_matcher :: ResultMatcher where
  "example_sparse_matcher =
     \<lparr>reference = example_results,
      matcher = (\<lambda>query k. [[\<lparr>queryIdx = 0, trainIdx = 0, imgIdx = 0, distance = 1\<rparr>]])\<rparr>"

text \<open>
  A transform that is not the identity, an estimator that finds it with three
  inliers, and one that throws after it
  has written two zero flags to the mask.
\<close>

definition example_transform :: Matx33f where
  "example_transform = [2, 0, 0, 0, 2, 0, 0, 0, 1]"

definition example_found :: findHomography where
  "example_found = (\<lambda>source_points reference_points method threshold.
     Returned example_transform [1, 1, 0, 1])"

definition example_threw :: findHomography where
  "example_threw = (\<lambda>source_points reference_points method threshold. Threw [0, 0])"

text \<open>
  OpenCV routines that leave images, points and matrices as they are, a 2 x 2
  single-channel image, a one-row descriptor matrix, and three backends: one that
  finds a keypoint whatever it is given, one that finds nothing, and one that, told
  to use the provided keypoints, describes exactly those.
\<close>

definition example_cv :: OpenCV where
  "example_cv =
     \<lparr>getRotationMatrix2D = (\<lambda>center angle_deg scale. Matx32f_eye),
      transform_points = (\<lambda>points m. points),
      boundingRect = (\<lambda>points. \<lparr>rect_x = 0, rect_y = 0, rect_width = 2, rect_height = 2\<rparr>),
      warpAffine = (\<lambda>src m dsize interpolation border. src),
      GaussianBlur = (\<lambda>src ksize sigma_x sigma_y. src),
      resize = (\<lambda>src dsize fx fy interpolation. src),
      invertAffineTransform = (\<lambda>m. m),
      transform_Vec2f = (\<lambda>point m. point),
      uninitialized = (\<lambda>r. []),
      convertTo = (\<lambda>from_type to_type row. row)\<rparr>"

definition example_image :: Mat where
  "example_image = \<lparr>Mat_type = 0, Mat_cols = 2, Mat_data = [[10, 20], [30, 40]]\<rparr>"

definition example_descriptor :: Mat where
  "example_descriptor = \<lparr>Mat_type = 5, Mat_cols = 1, Mat_data = [[7]]\<rparr>"

definition example_backend :: Feature2D where
  "example_backend = (\<lambda>image_mat mask_mat keypoints_in useProvidedKeypoints.
     ([example_keypoint 1 1], example_descriptor))"

definition example_blind_backend :: Feature2D where
  "example_blind_backend = (\<lambda>image_mat mask_mat keypoints_in useProvidedKeypoints.
     ([], Mat_default))"

definition example_flag_backend :: Feature2D where
  "example_flag_backend = (\<lambda>image_mat mask_mat keypoints_in useProvidedKeypoints.
     if useProvidedKeypoints
     then (keypoints_in, \<lparr>Mat_type = 5, Mat_cols = 1, Mat_data = map (\<lambda>keypoint. [7]) keypoints_in\<rparr>)
     else ([example_keypoint 1 1], example_descriptor))"

text \<open>
  A horizontal shrinking that leaves one column of the image, and a backend that finds
  its keypoint only in an image of at least two columns: it finds it in the identity
  sample of a two-column image and nothing in the tilted samples, for which it
  returns a descriptor matrix of its usual width and type without rows.
\<close>

definition example_narrow_cv :: OpenCV where
  "example_narrow_cv =
     example_cv\<lparr>resize := (\<lambda>src dsize fx fy interpolation.
                   src\<lparr>Mat_cols := 1, Mat_data := map (take 1) (Mat_data src)\<rparr>)\<rparr>"

definition example_no_rows :: Mat where
  "example_no_rows = \<lparr>Mat_type = 5, Mat_cols = 1, Mat_data = []\<rparr>"

definition example_width_backend :: Feature2D where
  "example_width_backend = (\<lambda>image_mat mask_mat keypoints_in useProvidedKeypoints.
     if 2 \<le> Mat_cols image_mat then ([example_keypoint 1 1], example_descriptor)
     else ([], example_no_rows))"

text \<open>
  The arithmetic of \<^verbatim>\<open>cv::invertAffineTransform\<close> and of \<^verbatim>\<open>cv::transform\<close> on a point, for the
  affine map \<open>[[a, b, c], [d, e, f]]\<close> with two rows and three columns, applied to the
  six stored values of the matrix in row-major order. This is the layout the source
  addresses when it writes the offsets to (0, 2) and (1, 2). The inverse of a
  singular map is the zero matrix, as in OpenCV. (OpenCV itself checks the shape
  first: given a matrix of three rows and two columns, \<^verbatim>\<open>invertAffineTransform\<close> fails
  its assertion \<^verbatim>\<open>rows == 2 && cols == 3\<close>.)
\<close>

definition affine_inverse :: "Matx32f \<Rightarrow> Matx32f" where
  "affine_inverse m =
     (let det = m ! 0 * m ! 4 - m ! 1 * m ! 3;
          inv_det = (if det \<noteq> 0 then 1 / det else 0);
          a11 = m ! 4 * inv_det;
          a22 = m ! 0 * inv_det;
          a12 = - (m ! 1) * inv_det;
          a21 = - (m ! 3) * inv_det;
          b1 = - a11 * m ! 2 - a12 * m ! 5;
          b2 = - a21 * m ! 2 - a22 * m ! 5
      in [a11, a12, b1, a21, a22, b2])"

definition affine_apply :: "Point2f \<Rightarrow> Matx32f \<Rightarrow> Point2f" where
  "affine_apply point m =
     (m ! 0 * fst point + m ! 1 * snd point + m ! 2,
      m ! 3 * fst point + m ! 4 * snd point + m ! 5)"

definition example_affine_cv :: OpenCV where
  "example_affine_cv =
     example_cv\<lparr>invertAffineTransform := affine_inverse, transform_Vec2f := affine_apply\<rparr>"

section \<open>Properties of the ratio test and of match\<close>

lemma unique_matches_append:
  "unique_matches (xs @ ys) = unique_matches xs @ unique_matches ys"
  by (induction xs) auto

lemma collect_points_length:
  "collect_points sk rk ms = Some (sp, rp) \<Longrightarrow> length sp = length ms \<and> length rp = length ms"
  by (induction ms arbitrary: sp rp) (auto split: option.splits prod.splits)

lemma pack_matches_all_zero:
  assumes len: "length unique \<le> length inlier_mask"
    and z: "list_all (\<lambda>flag. flag = 0) (take (length unique) inlier_mask)"
  shows "pack_matches unique inlier_mask = Inr []"
proof -
  have "\<forall>p \<in> set (zip unique inlier_mask). snd p = 0"
  proof
    fix p assume "p \<in> set (zip unique inlier_mask)"
    then obtain i where i: "i < length unique" "i < length inlier_mask"
        "p = (unique ! i, inlier_mask ! i)"
      by (auto simp: set_zip)
    have "take (length unique) inlier_mask ! i = 0"
      using z i len by (simp add: list_all_length del: nth_take)
    then show "snd p = 0" using i by simp
  qed
  then have "filter (\<lambda>(m, flag). flag \<noteq> 0) (zip unique inlier_mask) = []"
    by (auto simp: filter_empty_conv)
  then show ?thesis using len by (simp add: pack_matches_def)
qed

lemma example_unique:
  "unique_matches (matcher example_matcher (descriptors example_results) 2) =
     [example_row 0 ! 0, example_row 1 ! 0, example_row 2 ! 0, example_row 3 ! 0]"
  by (simp add: example_matcher_def example_row_def)

lemma example_points:
  "collect_points (keypoints example_results) (keypoints (reference example_matcher))
     [example_row 0 ! 0, example_row 1 ! 0, example_row 2 ! 0, example_row 3 ! 0] =
   Some ([(0, 0), (1, 0), (0, 1), (1, 1)], [(0, 0), (1, 0), (0, 1), (1, 1)])"
  by (simp add: example_matcher_def example_results_def example_row_def example_keypoint_def
      at_index_def)

text \<open>
  C1 (as stated, refuted). The claim is that a row whose two distances satisfy
  \<open>d1 = 0.75 * d2\<close> exactly is excluded by the ratio test. With \<open>d1 = 3\<close> and \<open>d2 = 4\<close> the
  row is kept: the test skips a row only when \<open>d1 > 0.75 * d2\<close>.
\<close>

theorem ratio_boundary_counterexample:
  "distance \<lparr>queryIdx = 0, trainIdx = 0, imgIdx = 0, distance = 3\<rparr>
     = 0.75 * distance \<lparr>queryIdx = 0, trainIdx = 1, imgIdx = 0, distance = 4\<rparr>
   \<and> unique_matches
        [[\<lparr>queryIdx = 0, trainIdx = 0, imgIdx = 0, distance = 3\<rparr>,
          \<lparr>queryIdx = 0, trainIdx = 1, imgIdx = 0, distance = 4\<rparr>]]
      = [\<lparr>queryIdx = 0, trainIdx = 0, imgIdx = 0, distance = 3\<rparr>]"
  by simp

text \<open>
  C1 (amended). Wherever a row \<open>m\<close> stands among the k-nearest-neighbour results, the
  ratio test keeps its nearest match, in row order, exactly when the row has two
  neighbours and \<open>d1 \<le> 0.75 * d2\<close>; in particular a row with \<open>d1 = 0.75 * d2\<close> is kept, and
  a row is excluded exactly when it has fewer than two neighbours or \<open>d1 > 0.75 * d2\<close>.
\<close>

theorem ratio_test_keeps_boundary:
  "unique_matches (before @ m # after) =
     unique_matches before
     @ (if 2 \<le> length m \<and> distance (m ! 0) \<le> 0.75 * distance (m ! 1) then [m ! 0] else [])
     @ unique_matches after"
  by (simp add: unique_matches_append)

text \<open>
  C5. Whenever fewer than four rows survive the ratio test, \<open>match\<close> returns the identity
  transform and an empty match list, whatever the homography estimator is: the
  estimator is not consulted.
\<close>

theorem match_too_few_unique:
  "length (unique_matches (matcher this (descriptors source) 2)) < 4
   \<Longrightarrow> match find_homography this source = Inr (Matx33f_eye, [])"
  by (simp add: match_def Let_def)

theorem match_too_few_unique_witness:
  "length (unique_matches (matcher example_sparse_matcher (descriptors example_results) 2)) < 4
   \<and> match example_found example_sparse_matcher example_results = Inr (Matx33f_eye, [])"
  using match_too_few_unique [of example_sparse_matcher example_results example_found]
  by (simp add: example_sparse_matcher_def)

text \<open>
  C4. With at least four ratio-surviving correspondences whose indices lie inside the
  two keypoint vectors, if the homography estimation throws a \<^verbatim>\<open>cv::Exception\<close> and has
  not flagged an inlier in the mask before throwing, \<open>match\<close> returns normally, with the
  identity transform and an empty match list.
\<close>

theorem match_estimator_failure:
  assumes "unique = unique_matches (matcher this (descriptors source) 2)"
    and "4 \<le> length unique"
    and "collect_points (keypoints source) (keypoints (reference this)) unique =
           Some (source_points, reference_points)"
    and "find_homography source_points reference_points RANSAC 5 = Threw left_in_mask"
    and "list_all (\<lambda>flag. flag = 0) (take (length unique) left_in_mask)"
  shows "match find_homography this source = Inr (Matx33f_eye, [])"
proof -
  have n: "length source_points = length unique"
    using collect_points_length[OF assms(3)] by simp
  let ?mask = "vector_resize left_in_mask (length unique) 0"
  have len: "length ?mask = length unique"
    by (simp add: vector_resize_def)
  have "list_all (\<lambda>flag. flag = 0) ?mask"
    using assms(5) by (auto simp: vector_resize_def list_all_iff)
  then have "pack_matches unique ?mask = Inr []"
    using pack_matches_all_zero[of unique ?mask] len by simp
  then show ?thesis
    using assms(1-4) n by (simp add: match_def Let_def)
qed

theorem match_estimator_failure_witness:
  "4 \<le> length (unique_matches (matcher example_matcher (descriptors example_results) 2))
   \<and> collect_points (keypoints example_results) (keypoints (reference example_matcher))
         (unique_matches (matcher example_matcher (descriptors example_results) 2)) =
       Some ([(0, 0), (1, 0), (0, 1), (1, 1)], [(0, 0), (1, 0), (0, 1), (1, 1)])
   \<and> example_threw [(0, 0), (1, 0), (0, 1), (1, 1)] [(0, 0), (1, 0), (0, 1), (1, 1)] RANSAC 5 =
       Threw [0, 0]
   \<and> list_all (\<lambda>flag. flag = 0)
       (take (length (unique_matches (matcher example_matcher (descriptors example_results) 2)))
          [0, 0 :: 8 word])
   \<and> match example_threw example_matcher example_results = Inr (Matx33f_eye, [])"
proof -
  let ?unique = "unique_matches (matcher example_matcher (descriptors example_results) 2)"
  let ?points = "[(0, 0), (1, 0), (0, 1), (1, 1)] :: Point2f list"
  have enough: "4 \<le> length ?unique"
    by (simp only: example_unique) simp
  have points: "collect_points (keypoints example_results) (keypoints (reference example_matcher))
                  ?unique = Some (?points, ?points)"
    by (simp only: example_unique example_points)
  have threw: "example_threw ?points ?points RANSAC 5 = Threw [0, 0]"
    by (simp add: example_threw_def)
  have zeros: "list_all (\<lambda>flag. flag = 0) (take (length ?unique) [0, 0 :: 8 word])"
    by (simp only: example_unique) simp
  have "match example_threw example_matcher example_results = Inr (Matx33f_eye, [])"
    by (rule match_estimator_failure
      [of ?unique example_matcher example_results ?points ?points example_threw "[0, 0]",
       OF refl enough points threw zeros])
  with enough points threw zeros show ?thesis by blast
qed

section \<open>Properties of parallelMatch\<close>

lemma vector_resize_length: "length (vector_resize xs n v) = n"
  by (simp add: vector_resize_def)

lemma vector_resize_nth:
  "i < n \<Longrightarrow> vector_resize xs n v ! i = (if i < length xs then xs ! i else v)"
  by (simp add: vector_resize_def nth_append)

lemma vector_resize_shrink: "n \<le> length xs \<Longrightarrow> vector_resize xs n v = take n xs"
  by (simp add: vector_resize_def)

lemma matches_succeedD:
  "matches_succeed fh matchers source \<Longrightarrow> i < length matchers \<Longrightarrow> matchers ! i = Some m
   \<Longrightarrow> match fh m source = Inr (projr (match fh m source))"
  by (auto simp: matches_succeed_def list_all_length split: option.splits)

lemma map_upt_eqI:
  "length xs = n \<Longrightarrow> (\<And>j. j < n \<Longrightarrow> xs ! j = f j) \<Longrightarrow> map f [0..<n] = xs"
  by (rule nth_equalityI) auto

lemma parallel_for_match_tasks:
  assumes "matches_succeed fh matchers source"
    and "set sched \<subseteq> {0..<length matchers}"
    and "length ts = length matchers" and "length ms = length matchers"
  shows "parallel_for sched (match_tasks fh matchers source) (ts, ms) =
           Inr (map (\<lambda>j. case matchers ! j of
                          Some m \<Rightarrow> if j \<in> set sched then fst (projr (match fh m source)) else ts ! j
                        | None \<Rightarrow> ts ! j) [0..<length matchers],
                map (\<lambda>j. case matchers ! j of
                          Some m \<Rightarrow> if j \<in> set sched then snd (projr (match fh m source)) else ms ! j
                        | None \<Rightarrow> ms ! j) [0..<length matchers])"
  using assms(2-4)
proof (induction sched arbitrary: ts ms)
  case Nil
  then show ?case
    by (auto intro!: map_upt_eqI[symmetric] split: option.splits)
next
  case (Cons i sched)
  then have i: "i < length matchers" by simp
  show ?case
  proof (cases "matchers ! i")
    case None
    then have "match_tasks fh matchers source ! i = None"
      using i by (simp add: match_tasks_def)
    then have "parallel_for (i # sched) (match_tasks fh matchers source) (ts, ms) =
          parallel_for sched (match_tasks fh matchers source) (ts, ms)"
      by simp
    also have "\<dots> = Inr (map (\<lambda>j. case matchers ! j of
                          Some m \<Rightarrow> if j \<in> set sched then fst (projr (match fh m source)) else ts ! j
                        | None \<Rightarrow> ts ! j) [0..<length matchers],
                map (\<lambda>j. case matchers ! j of
                          Some m \<Rightarrow> if j \<in> set sched then snd (projr (match fh m source)) else ms ! j
                        | None \<Rightarrow> ms ! j) [0..<length matchers])"
      using Cons by simp
    finally show ?thesis
      using None by (auto split: option.splits)
  next
    case (Some m)
    obtain t mm where r: "match fh m source = Inr (t, mm)"
      using matches_succeedD[OF assms(1) i Some] by (metis surj_pair)
    have task: "match_tasks fh matchers source ! i =
        Some (\<lambda>(transforms, matches_array). Inr (transforms[i := t], matches_array[i := mm]))"
      using i Some r by (simp add: match_tasks_def)
    have "parallel_for (i # sched) (match_tasks fh matchers source) (ts, ms) =
          parallel_for sched (match_tasks fh matchers source) (ts[i := t], ms[i := mm])"
      by (simp add: task)
    also have "\<dots> = Inr (map (\<lambda>j. case matchers ! j of
                          Some m \<Rightarrow> if j \<in> set sched then fst (projr (match fh m source)) else ts[i := t] ! j
                        | None \<Rightarrow> ts[i := t] ! j) [0..<length matchers],
                map (\<lambda>j. case matchers ! j of
                          Some m \<Rightarrow> if j \<in> set sched then snd (projr (match fh m source)) else ms[i := mm] ! j
                        | None \<Rightarrow> ms[i := mm] ! j) [0..<length matchers])"
      using Cons by simp
    finally show ?thesis
      using Some r Cons.prems i
      by (auto simp: nth_list_update split: option.splits)
  qed
qed

lemma parallelMatch_closed_form:
  assumes "matches_succeed fh matchers source"
    and "schedule_of (length matchers) sched"
  shows "parallelMatch fh sched matchers source transforms_in matches_array_in =
           Inr (map (\<lambda>j. case matchers ! j of
                          Some m \<Rightarrow> fst (projr (match fh m source))
                        | None \<Rightarrow> if j < length transforms_in then transforms_in ! j else Matx33f_eye)
                  [0..<length matchers],
                map (\<lambda>j. case matchers ! j of
                          Some m \<Rightarrow> snd (projr (match fh m source))
                        | None \<Rightarrow> if j < length matches_array_in then matches_array_in ! j else [])
                  [0..<length matchers])"
proof -
  have s: "set sched = {0..<length matchers}"
    using assms(2) by (simp add: schedule_of_def)
  have "parallelMatch fh sched matchers source transforms_in matches_array_in =
        parallel_for sched (match_tasks fh matchers source)
          (vector_resize transforms_in (length matchers) Matx33f_eye,
           vector_resize matches_array_in (length matchers) [])"
    by (simp add: parallelMatch_def Let_def)
  also have "\<dots> = Inr (map (\<lambda>j. case matchers ! j of
                          Some m \<Rightarrow> if j \<in> set sched then fst (projr (match fh m source))
                                    else vector_resize transforms_in (length matchers) Matx33f_eye ! j
                        | None \<Rightarrow> vector_resize transforms_in (length matchers) Matx33f_eye ! j)
                  [0..<length matchers],
                map (\<lambda>j. case matchers ! j of
                          Some m \<Rightarrow> if j \<in> set sched then snd (projr (match fh m source))
                                    else vector_resize matches_array_in (length matchers) [] ! j
                        | None \<Rightarrow> vector_resize matches_array_in (length matchers) [] ! j)
                  [0..<length matchers])"
    using assms(1) s by (intro parallel_for_match_tasks) (simp_all add: vector_resize_length)
  finally show ?thesis
    using s by (auto simp: vector_resize_nth split: option.splits)
qed

lemma example_match_found:
  "match example_found example_matcher example_results =
     Inr (example_transform, [example_row 0 ! 0, example_row 1 ! 0, example_row 3 ! 0])"
proof -
  have "pack_matches [example_row 0 ! 0, example_row 1 ! 0, example_row 2 ! 0, example_row 3 ! 0]
          [1, 1, 0, 1] = Inr [example_row 0 ! 0, example_row 1 ! 0, example_row 3 ! 0]"
    by (simp add: pack_matches_def)
  then show ?thesis
    unfolding match_def Let_def example_unique example_points
    by (simp add: example_found_def)
qed

text \<open>
  C8 (amended). Under any schedule of the tasks, when every non-null matcher's \<open>match\<close>
  call returns, \<open>parallelMatch\<close> returns output vectors of the matchers' length in which
  the slot of a non-null matcher holds exactly what its own \<open>match\<close> call produced, and
  the slot of a null matcher holds the identity transform and the empty match list
  when the caller's vector had no element at that index on entry (in particular
  when the output vectors are passed in empty), and otherwise the element the
  caller passed in.
\<close>

theorem parallelMatch_slots:
  assumes "schedule_of (length matchers) sched"
    and "matches_succeed find_homography matchers source"
  shows "\<exists>transforms matches_array.
           parallelMatch find_homography sched matchers source transforms_in matches_array_in =
             Inr (transforms, matches_array)
           \<and> length transforms = length matchers \<and> length matches_array = length matchers
           \<and> (\<forall>i<length matchers.
                 case matchers ! i of
                   None \<Rightarrow>
                     transforms ! i = (if i < length transforms_in then transforms_in ! i else Matx33f_eye)
                     \<and> matches_array ! i =
                         (if i < length matches_array_in then matches_array_in ! i else [])
                 | Some m \<Rightarrow>
                     match find_homography m source = Inr (transforms ! i, matches_array ! i))"
proof -
  have "\<forall>i<length matchers. \<forall>m. matchers ! i = Some m \<longrightarrow>
          match find_homography m source =
            Inr (fst (projr (match find_homography m source)), snd (projr (match find_homography m source)))"
    using matches_succeedD[OF assms(2)] by simp
  then show ?thesis
    unfolding parallelMatch_closed_form[OF assms(2) assms(1)]
    by (auto split: option.splits)
qed

theorem parallelMatch_slots_witness:
  "schedule_of (length [None, Some example_matcher]) [1, 0]
   \<and> matches_succeed example_found [None, Some example_matcher] example_results
   \<and> (\<exists>transforms matches_array.
         parallelMatch example_found [1, 0] [None, Some example_matcher] example_results [] [] =
           Inr (transforms, matches_array)
         \<and> transforms ! 0 = Matx33f_eye \<and> matches_array ! 0 = []
         \<and> match example_found example_matcher example_results =
             Inr (transforms ! 1, matches_array ! 1))"
proof -
  have sched: "schedule_of (length [None, Some example_matcher]) [1, 0]"
    by (auto simp: schedule_of_def)
  have ok: "matches_succeed example_found [None, Some example_matcher] example_results"
    by (simp add: matches_succeed_def example_match_found)
  show ?thesis
    using parallelMatch_slots [OF sched ok, of "[]" "[]"] sched ok
    by (auto simp: All_less_Suc)
qed

text \<open>
  C8 (as stated, refuted). The claim is that the slot of a null matcher always holds
  the identity transform and an empty match list. With one null matcher and output
  vectors that already hold one element each, the slot keeps the caller's element:
  \<^verbatim>\<open>resize\<close> only pads, and no task writes the slot.
\<close>

theorem parallelMatch_null_slot_counterexample:
  "schedule_of (length [None :: ResultMatcher option]) [0]
   \<and> parallelMatch example_found [0] [None] example_results [example_transform] [[example_row 0 ! 0]] =
       Inr ([example_transform], [[example_row 0 ! 0]])
   \<and> example_transform \<noteq> Matx33f_eye \<and> [example_row 0 ! 0] \<noteq> []"
proof -
  have "example_transform \<noteq> Matx33f_eye"
    by (simp add: example_transform_def Matx33f_eye_def)
  then show ?thesis
    by (simp add: parallelMatch_def match_tasks_def vector_resize_def schedule_of_def)
qed

text \<open>
  C10. When the caller's output vectors hold at least as many elements as there are
  matchers, \<^verbatim>\<open>resize\<close> only truncates them to the matchers' length, and under any
  schedule (every non-null matcher's \<open>match\<close> call returning) the slot of a null
  matcher still holds the caller's element for that index, not the identity
  transform and the empty match list.
\<close>

theorem parallelMatch_keeps_prior_slots:
  assumes "length matchers \<le> length transforms_in"
    and "length matchers \<le> length matches_array_in"
    and "schedule_of (length matchers) sched"
    and "matches_succeed find_homography matchers source"
  shows "vector_resize transforms_in (length matchers) Matx33f_eye = take (length matchers) transforms_in
         \<and> vector_resize matches_array_in (length matchers) [] = take (length matchers) matches_array_in
         \<and> (\<exists>transforms matches_array.
               parallelMatch find_homography sched matchers source transforms_in matches_array_in =
                 Inr (transforms, matches_array)
               \<and> (\<forall>i<length matchers. matchers ! i = None \<longrightarrow>
                     transforms ! i = transforms_in ! i \<and> matches_array ! i = matches_array_in ! i))"
  using assms(1,2)
  unfolding parallelMatch_closed_form[OF assms(4) assms(3)]
  by (auto simp: vector_resize_shrink)

theorem parallelMatch_keeps_prior_slots_witness:
  "length [None, Some example_matcher] \<le> length [example_transform, example_transform]
   \<and> length [None, Some example_matcher] \<le> length [[example_row 2 ! 0], [example_row 2 ! 1]]
   \<and> schedule_of (length [None, Some example_matcher]) [0, 1]
   \<and> matches_succeed example_found [None, Some example_matcher] example_results
   \<and> (\<exists>transforms matches_array.
         parallelMatch example_found [0, 1] [None, Some example_matcher] example_results
             [example_transform, example_transform] [[example_row 2 ! 0], [example_row 2 ! 1]] =
           Inr (transforms, matches_array)
         \<and> transforms ! 0 = example_transform \<and> matches_array ! 0 = [example_row 2 ! 0])"
proof -
  have sched: "schedule_of (length [None, Some example_matcher]) [0, 1]"
    by (auto simp: schedule_of_def)
  have ok: "matches_succeed example_found [None, Some example_matcher] example_results"
    by (simp add: matches_succeed_def example_match_found)
  show ?thesis
    using parallelMatch_keeps_prior_slots
      [of "[None, Some example_matcher]" "[example_transform, example_transform]"
          "[[example_row 2 ! 0], [example_row 2 ! 1]]" "[0, 1]" example_found example_results,
       OF _ _ sched ok]
      sched ok
    by auto
qed


section \<open>Properties of the affine sample plan\<close>

declare phi_loop.simps [simp del]

lemma phi_loop_closed:
  "phi_loop i phi (ts, ps) =
     (ts @ replicate (nat \<lceil>(180 - phi) * 2 powr (0.5 * real i) / 72\<rceil>) (2 powr (0.5 * real i)),
      ps @ map (\<lambda>k. phi + real k * (72 / 2 powr (0.5 * real i)))
             [0..<nat \<lceil>(180 - phi) * 2 powr (0.5 * real i) / 72\<rceil>])"
proof (induction i phi "(ts, ps)" arbitrary: ts ps rule: phi_loop.induct)
  case (1 i phi ts ps)
  define t where "t = 2 powr (0.5 * real i)"
  define x where "x = (180 - phi) * t / 72"
  have tpos: "0 < t" by (simp add: t_def)
  show ?case
  proof (cases "phi < 180")
    case True
    have step: "(180 - (phi + 72 / t)) * t / 72 = x - 1"
      using tpos by (simp add: x_def field_simps)
    have "0 < x" using tpos True by (simp add: x_def)
    then have "1 \<le> \<lceil>x\<rceil>" by linarith
    moreover have "\<lceil>x - 1\<rceil> = \<lceil>x\<rceil> - 1" by linarith
    ultimately have m: "nat \<lceil>x\<rceil> = Suc (nat \<lceil>x - 1\<rceil>)" by linarith
    have "phi_loop i phi (ts, ps) = phi_loop i (phi + 72 / t) (ts @ [t], ps @ [phi])"
      using True by (subst phi_loop.simps) (simp add: t_def Let_def)
    also have "\<dots> = ((ts @ [t]) @ replicate (nat \<lceil>x - 1\<rceil>) t,
                      (ps @ [phi]) @ map (\<lambda>k. (phi + 72 / t) + real k * (72 / t)) [0..<nat \<lceil>x - 1\<rceil>])"
      using "1"[OF t_def[unfolded t_def] True] unfolding t_def[symmetric] step by simp
    also have "\<dots> = (ts @ replicate (nat \<lceil>x\<rceil>) t,
                      ps @ map (\<lambda>k. phi + real k * (72 / t)) [0..<nat \<lceil>x\<rceil>])"
      unfolding m by (simp add: map_upt_Suc algebra_simps add_divide_distrib del: upt_Suc)
    finally show ?thesis unfolding x_def t_def .
  next
    case False
    then have "x \<le> 0" using tpos by (simp add: x_def mult_nonpos_nonneg)
    then have "nat \<lceil>x\<rceil> = 0" by simp
    moreover have "phi_loop i phi (ts, ps) = (ts, ps)"
      using False by (subst phi_loop.simps) (simp add: Let_def)
    ultimately show ?thesis unfolding x_def t_def by simp
  qed
qed

lemma sqrt2_bounds: "1.4 < sqrt 2" "sqrt 2 < 1.5"
proof -
  show "1.4 < sqrt 2" by (rule real_less_rsqrt) (simp add: power2_eq_square)
  show "sqrt 2 < 1.5" by (rule real_less_lsqrt) (simp_all add: power2_eq_square)
qed

lemma tilt_levels:
  "2 powr (0.5 * real (1::nat)) = sqrt 2"
  "2 powr (0.5 * real (2::nat)) = 2"
  "2 powr (0.5 * real (3::nat)) = 2 * sqrt 2"
  "2 powr (0.5 * real (4::nat)) = 4"
  "2 powr (0.5 * real (5::nat)) = 4 * sqrt 2"
proof -
  have h: "2 powr (1 / 2) = sqrt 2" by (simp add: powr_half_sqrt)
  show "2 powr (0.5 * real (1::nat)) = sqrt 2" using h by simp
  show "2 powr (0.5 * real (2::nat)) = 2" by simp
  have "2 powr (0.5 * real (3::nat)) = 2 powr (1 + 1 / 2)" by simp
  also have "\<dots> = 2 * sqrt 2" unfolding powr_add h by simp
  finally show "2 powr (0.5 * real (3::nat)) = 2 * sqrt 2" .
  have "(2::real) powr (0.5 * real (4::nat)) = 2 powr (real (2::nat))" by simp
  also have "\<dots> = 4" unfolding powr_realpow[of 2 2, simplified] by simp
  finally show "2 powr (0.5 * real (4::nat)) = 4" .
  have "2 powr (0.5 * real (5::nat)) = 2 powr (real (2::nat) + 1 / 2)" by simp
  also have "\<dots> = 4 * sqrt 2" unfolding powr_add h powr_realpow[of 2 2, simplified] by simp
  finally show "2 powr (0.5 * real (5::nat)) = 4 * sqrt 2" .
qed

lemma angle_ceilings:
  "\<lceil>(180 - 0) * 2 powr (0.5 * real (1::nat)) / 72\<rceil> = int 4"
  "\<lceil>(180 - 0) * 2 powr (0.5 * real (2::nat)) / 72\<rceil> = int 5"
  "\<lceil>(180 - 0) * 2 powr (0.5 * real (3::nat)) / 72\<rceil> = int 8"
  "\<lceil>(180 - 0) * 2 powr (0.5 * real (4::nat)) / 72\<rceil> = int 10"
  "\<lceil>(180 - 0) * 2 powr (0.5 * real (5::nat)) / 72\<rceil> = int 15"
  unfolding tilt_levels using sqrt2_bounds by (intro ceiling_unique; simp)+

lemma angle_counts:
  "nat \<lceil>(180 - 0) * 2 powr (0.5 * real (1::nat)) / 72\<rceil> = 4"
  "nat \<lceil>(180 - 0) * 2 powr (0.5 * real (2::nat)) / 72\<rceil> = 5"
  "nat \<lceil>(180 - 0) * 2 powr (0.5 * real (3::nat)) / 72\<rceil> = 8"
  "nat \<lceil>(180 - 0) * 2 powr (0.5 * real (4::nat)) / 72\<rceil> = 10"
  "nat \<lceil>(180 - 0) * 2 powr (0.5 * real (5::nat)) / 72\<rceil> = 15"
proof -
  have "\<lceil>(180 - 0) * sqrt 2 / 72\<rceil> = 4"
    using sqrt2_bounds by (intro ceiling_unique) simp_all
  then show "nat \<lceil>(180 - 0) * 2 powr (0.5 * real (1::nat)) / 72\<rceil> = 4"
    unfolding tilt_levels by simp
  have "\<lceil>(180 - 0) * (2::real) / 72\<rceil> = 5"
    by (intro ceiling_unique) simp_all
  then show "nat \<lceil>(180 - 0) * 2 powr (0.5 * real (2::nat)) / 72\<rceil> = 5"
    unfolding tilt_levels by simp
  have "\<lceil>(180 - 0) * (2 * sqrt 2) / 72\<rceil> = 8"
    using sqrt2_bounds by (intro ceiling_unique) simp_all
  then show "nat \<lceil>(180 - 0) * 2 powr (0.5 * real (3::nat)) / 72\<rceil> = 8"
    unfolding tilt_levels by simp
  have "\<lceil>(180 - 0) * (4::real) / 72\<rceil> = 10"
    by (intro ceiling_unique) simp_all
  then show "nat \<lceil>(180 - 0) * 2 powr (0.5 * real (4::nat)) / 72\<rceil> = 10"
    unfolding tilt_levels by simp
  have "\<lceil>(180 - 0) * (4 * sqrt 2) / 72\<rceil> = 15"
    using sqrt2_bounds by (intro ceiling_unique) simp_all
  then show "nat \<lceil>(180 - 0) * 2 powr (0.5 * real (5::nat)) / 72\<rceil> = 15"
    unfolding tilt_levels by simp
qed


lemma sample_params_closed:
  "sample_params =
     (1 # concat (map (\<lambda>(i, n). replicate n (2 powr (0.5 * real i)))
                   [(1, 4), (2, 5), (3, 8), (4, 10), (5, 15 :: nat)]),
      0 # concat (map (\<lambda>(i, n). map (\<lambda>k. real k * (72 / 2 powr (0.5 * real i))) [0..<n])
                   [(1, 4), (2, 5), (3, 8), (4, 10), (5, 15)]))"
proof -
  have u: "[1..<6] = [1, 2, 3, 4, 5 :: nat]"
    by (simp add: upt_rec)
  show ?thesis
    unfolding sample_params_def u fold.simps o_def id_def phi_loop_closed angle_counts
    by simp
qed

lemma sample_params_length:
  "length (fst sample_params) = 43" "length (snd sample_params) = 43"
  unfolding sample_params_closed by simp_all

lemma angle_count_maximal:
  fixes t :: real
  assumes "0 < t" and "\<lceil>(180 - 0) * t / 72\<rceil> = int n"
  shows "(k < n) = (real k * (72 / t) < 180)"
proof -
  have "(real k * (72 / t) < 180) = (real k < 180 * t / 72)"
    using assms(1) by (simp add: field_simps)
  also have "\<dots> = (int k < \<lceil>180 * t / 72\<rceil>)"
    by (simp add: less_ceiling_iff)
  also have "\<dots> = (k < n)"
    using assms(2) by simp
  finally show ?thesis by simp
qed


lemma zip_sample_blocks:
  "zip (concat (map (\<lambda>(i, n). replicate n (T i)) cs))
       (concat (map (\<lambda>(i, n). map (F i) [0..<n]) cs)) =
   concat (map (\<lambda>(i, n). map (\<lambda>k. (T i, F i k)) [0..<n]) cs)"
proof (induction cs)
  case Nil
  show ?case by simp
next
  case (Cons c cs)
  obtain i n where c: "c = (i, n)" by (cases c)
  have "zip (replicate (length xs) (T i)) (map (F i) xs) = map (\<lambda>k. (T i, F i k)) xs" for xs
    by (induction xs) simp_all
  from this[of "[0..<n]"]
  have "zip (replicate n (T i)) (map (F i) [0..<n]) = map (\<lambda>k. (T i, F i k)) [0..<n]"
    by simp
  then show ?case using Cons by (simp add: c)
qed

text \<open>
  C6. The sample plan has no input, so it is the same on every call. Read as the list
  of (tilt, angle) pairs it is: the identity sample (1, 0) first, then for
  \<open>i = 1, ..., 5\<close> in this order the tilt \<open>2 powr (0.5 * i)\<close> with the angles
  \<open>k * (72 / tilt)\<close> for \<open>k = 0, 1, ...\<close> in increasing order, 4, 5, 8, 10 and 15 of them;
  and at each tilt level these are all the multiples of \<open>72 / tilt\<close> strictly below 180
  (\<open>k\<close> is below the count exactly when \<open>k * (72 / tilt) < 180\<close>). The angle is the running
  sum of the loop, which over the real numbers is the multiple.
\<close>

theorem sample_plan_exact:
  "length (fst sample_params) = length (snd sample_params)
   \<and> zip (fst sample_params) (snd sample_params) =
       (1, 0) # concat (map (\<lambda>(i, n).
                  map (\<lambda>k. (2 powr (0.5 * real i), real k * (72 / 2 powr (0.5 * real i)))) [0..<n])
                [(1, 4), (2, 5), (3, 8), (4, 10), (5, 15)])
   \<and> list_all (\<lambda>(i, n). \<forall>k. (k < n) = (real k * (72 / 2 powr (0.5 * real i)) < 180))
       [(1, 4), (2, 5), (3, 8), (4, 10), (5, 15)]"
proof (intro conjI)
  show "length (fst sample_params) = length (snd sample_params)"
    by (simp add: sample_params_length)
  show "zip (fst sample_params) (snd sample_params) =
       (1, 0) # concat (map (\<lambda>(i, n).
                  map (\<lambda>k. (2 powr (0.5 * real i), real k * (72 / 2 powr (0.5 * real i)))) [0..<n])
                [(1, 4), (2, 5), (3, 8), (4, 10), (5, 15)])"
    unfolding sample_params_closed fst_conv snd_conv zip_Cons_Cons zip_sample_blocks ..
  have pos: "\<And>i. 0 < (2::real) powr (0.5 * real i)" by simp
  show "list_all (\<lambda>(i, n). \<forall>k. (k < n) = (real k * (72 / 2 powr (0.5 * real i)) < 180))
       [(1, 4), (2, 5), (3, 8), (4, 10), (5, 15)]"
    using angle_count_maximal[OF pos angle_ceilings(1)] angle_count_maximal[OF pos angle_ceilings(2)]
      angle_count_maximal[OF pos angle_ceilings(3)] angle_count_maximal[OF pos angle_ceilings(4)]
      angle_count_maximal[OF pos angle_ceilings(5)]
    by simp
qed


section \<open>Properties of AffineInvariantFeature\<close>

subsection \<open>The per-sample detection and the parallel loop\<close>

text \<open>
  With a backend present a per-sample detection always returns: the backend is called
  once, on the warped image and mask, the keypoint slot and the flag, and its
  keypoints are mapped back through the inverse of the sample's affine map.
\<close>

lemma detectAndComputeImpl_forward:
  "detectAndComputeImpl cv (Some base) src_image src_mask keypoints_in tilt phi flag =
     Inr (case warp_sample cv src_image src_mask tilt phi of
            (affine, warped_image, warped_mask) \<Rightarrow>
              (case base warped_image warped_mask keypoints_in flag of
                 (detected, descriptors_mat) \<Rightarrow>
                   (invert_keypoints cv affine detected, descriptors_mat)))"
  by (simp add: detectAndComputeImpl_def split_def Let_def)

lemma detectAndComputeImpl_returns:
  "detectAndComputeImpl cv (Some base) src_image src_mask keypoints_in tilt phi flag =
     Inr (projr (detectAndComputeImpl cv (Some base) src_image src_mask keypoints_in tilt phi flag))"
  by (simp add: detectAndComputeImpl_forward)

lemma per_sample_outputs_forward:
  "per_sample_outputs cv base image_mat mask_mat flag =
     map (\<lambda>i. case warp_sample cv image_mat mask_mat (fst sample_params ! i) (snd sample_params ! i) of
                 (affine, warped_image, warped_mask) \<Rightarrow>
                   (case base warped_image warped_mask [] flag of
                      (detected, descriptors_mat) \<Rightarrow>
                        (invert_keypoints cv affine detected, descriptors_mat)))
       [0..<length (fst sample_params)]"
  by (simp add: per_sample_outputs_def detectAndComputeImpl_forward)

lemma parallel_for_detect_tasks:
  assumes "distinct sched"
    and "set sched \<subseteq> {0..<length tilts}"
    and "length slots = length tilts"
    and "\<forall>i\<in>set sched. fst (slots ! i) = []"
  shows "parallel_for sched (detect_tasks cv (Some base) image_mat mask_mat tilts phis flag) slots =
           Inr (map (\<lambda>j. if j \<in> set sched
                          then projr (detectAndComputeImpl cv (Some base) image_mat mask_mat []
                                        (tilts ! j) (phis ! j) flag)
                          else slots ! j)
                  [0..<length tilts])"
  using assms
proof (induction sched arbitrary: slots)
  case Nil
  then show ?case
    by (auto intro!: map_upt_eqI[symmetric])
next
  case (Cons i sched)
  let ?out = "\<lambda>j. projr (detectAndComputeImpl cv (Some base) image_mat mask_mat []
                              (tilts ! j) (phis ! j) flag)"
  have i: "i < length tilts" "i \<notin> set sched" "fst (slots ! i) = []"
    using Cons.prems by auto
  have task: "detect_tasks cv (Some base) image_mat mask_mat tilts phis flag ! i =
        Some (\<lambda>slots. case detectAndComputeImpl cv (Some base) image_mat mask_mat (fst (slots ! i))
                               (tilts ! i) (phis ! i) flag of
                         Inl e \<Rightarrow> Inl e
                       | Inr slot \<Rightarrow> Inr (slots[i := slot]))"
    using i(1) by (simp add: detect_tasks_def cong: sum.case_cong)
  have run: "detectAndComputeImpl cv (Some base) image_mat mask_mat (fst (slots ! i))
               (tilts ! i) (phis ! i) flag = Inr (?out i)"
    unfolding i(3) by (rule detectAndComputeImpl_returns)
  have "parallel_for (i # sched) (detect_tasks cv (Some base) image_mat mask_mat tilts phis flag) slots =
        parallel_for sched (detect_tasks cv (Some base) image_mat mask_mat tilts phis flag)
          (slots[i := ?out i])"
    by (simp add: task run)
  also have "\<dots> = Inr (map (\<lambda>j. if j \<in> set sched then ?out j else slots[i := ?out i] ! j)
                        [0..<length tilts])"
  proof (rule Cons.IH)
    show "distinct sched" using Cons.prems by simp
    show "set sched \<subseteq> {0..<length tilts}" using Cons.prems by simp
    show "length (slots[i := ?out i]) = length tilts" using Cons.prems by simp
    show "\<forall>j\<in>set sched. fst (slots[i := ?out i] ! j) = []"
      using Cons.prems i(2) by (auto simp: nth_list_update)
  qed
  also have "\<dots> = Inr (map (\<lambda>j. if j \<in> set (i # sched) then ?out j else slots ! j)
                        [0..<length tilts])"
    using i Cons.prems(3) by (auto simp: nth_list_update)
  finally show ?case .
qed

text \<open>
  Under any schedule the parallel loop fills the slots with the per-sample outputs in
  sample-plan order, so \<open>detectAndCompute\<close> is the merge of these outputs.
\<close>

lemma detectAndCompute_merge:
  assumes "schedule_of (length (fst sample_params)) sched"
  shows "detectAndCompute cv (Some base) sched image_mat mask_mat keypoints_in descriptors_in flag =
           merge_slots cv descriptors_in (per_sample_outputs cv base image_mat mask_mat flag)"
proof -
  obtain tilts phis where sp: "sample_params = (tilts, phis)"
    by (cases sample_params)
  have s: "distinct sched" "set sched = {0..<length tilts}"
    using assms by (simp_all add: schedule_of_def sp)
  have "parallel_for sched (detect_tasks cv (Some base) image_mat mask_mat tilts phis flag)
          (replicate (length tilts) ([], Mat_default)) =
        Inr (map (\<lambda>j. if j \<in> set sched
                       then projr (detectAndComputeImpl cv (Some base) image_mat mask_mat []
                                     (tilts ! j) (phis ! j) flag)
                       else replicate (length tilts) ([], Mat_default) ! j)
               [0..<length tilts])"
    using s by (intro parallel_for_detect_tasks) auto
  also have "\<dots> = Inr (per_sample_outputs cv base image_mat mask_mat flag)"
    using s by (simp add: per_sample_outputs_def sp)
  finally show ?thesis
    by (simp add: detectAndCompute_def sp Let_def)
qed

lemma detectAndCompute_ignores_keypoints:
  "detectAndCompute cv base_feature sched image_mat mask_mat keypoints_in descriptors_in flag =
     detectAndCompute cv base_feature sched image_mat mask_mat [] descriptors_in flag"
  by (simp add: detectAndCompute_def)

lemma per_sample_outputs_flag:
  assumes "\<forall>image_mat mask_mat. base image_mat mask_mat [] True = base image_mat mask_mat [] False"
  shows "per_sample_outputs cv base image_mat mask_mat True =
         per_sample_outputs cv base image_mat mask_mat False"
  using assms by (simp add: per_sample_outputs_forward)

subsection \<open>The copy loop\<close>

text \<open>
  Copying an empty matrix to a row range fails an assertion, and so does every copy
  to a matrix without rows, which covers the matrix that was never allocated.
\<close>

lemma copyTo_rowRange_error:
  "copyTo_rowRange cv src dst startrow = Inl e \<Longrightarrow> e = AssertionFailed"
  by (auto simp: copyTo_rowRange_def Let_def split: if_splits)

lemma copyTo_rowRange_empty:
  "Mat_empty src \<Longrightarrow> copyTo_rowRange cv src dst startrow = Inl AssertionFailed"
  by (simp add: copyTo_rowRange_def Let_def)

lemma copyTo_rowRange_unallocated:
  "Mat_rows dst = 0 \<Longrightarrow> copyTo_rowRange cv src dst startrow = Inl AssertionFailed"
  by (auto simp: copyTo_rowRange_def Let_def Mat_empty_def)

text \<open>
  The copy loop has no guard against an empty per-sample matrix: as soon as one slot's
  matrix is empty, the loop fails an assertion, at that slot or before it.
\<close>

lemma copy_descriptors_empty:
  "\<exists>d\<in>set ds. Mat_empty d \<Longrightarrow> copy_descriptors cv ds startrow dm = Inl AssertionFailed"
proof (induction ds arbitrary: startrow dm)
  case Nil
  then show ?case by simp
next
  case (Cons d ds)
  show ?case
  proof (cases "copyTo_rowRange cv d dm startrow")
    case (Inl e)
    then show ?thesis
      using copyTo_rowRange_error[OF Inl] by simp
  next
    case (Inr dm')
    then have "\<not> Mat_empty d"
      using copyTo_rowRange_empty[of d cv dm startrow] by auto
    then have "\<exists>d\<in>set ds. Mat_empty d"
      using Cons.prems by auto
    then show ?thesis
      using Cons.IH Inr by simp
  qed
qed

lemma merge_slots_empty:
  "\<exists>p\<in>set slots. Mat_empty (snd p) \<Longrightarrow> merge_slots cv descriptors_in slots = Inl AssertionFailed"
proof -
  assume "\<exists>p\<in>set slots. Mat_empty (snd p)"
  then have "\<exists>d\<in>set (map snd slots). Mat_empty d" by auto
  then show ?thesis
    by (simp add: merge_slots_def split_def copy_descriptors_empty del: set_map)
qed

lemma detectAndCompute_empty_sample:
  assumes "schedule_of (length (fst sample_params)) sched"
    and "\<exists>p\<in>set (per_sample_outputs cv base image_mat mask_mat flag). Mat_empty (snd p)"
  shows "detectAndCompute cv (Some base) sched image_mat mask_mat keypoints_in descriptors_in flag =
           Inl AssertionFailed"
  unfolding detectAndCompute_merge[OF assms(1)] by (rule merge_slots_empty[OF assms(2)])

text \<open>
  The copy loop writes the per-sample rows one block after the other, provided no
  matrix is empty, every matrix has the output's width and type, and the output has
  room for them.
\<close>

lemma copy_descriptors_write:
  assumes "\<forall>d\<in>set ds. \<not> Mat_empty d \<and> Mat_type d = Mat_type dm \<and> Mat_cols d = Mat_cols dm"
    and "startrow + sum_list (map Mat_rows ds) \<le> Mat_rows dm"
  shows "copy_descriptors cv ds startrow dm =
           Inr (dm\<lparr>Mat_data := take startrow (Mat_data dm) @ concat (map Mat_data ds)
                                 @ drop (startrow + sum_list (map Mat_rows ds)) (Mat_data dm)\<rparr>)"
  using assms
proof (induction ds arbitrary: startrow dm)
  case Nil
  then show ?case by simp
next
  case (Cons d ds)
  have shape: "\<not> Mat_empty d" "Mat_type d = Mat_type dm" "Mat_cols d = Mat_cols dm"
    using Cons.prems(1) by auto
  define dm' where "dm' = dm\<lparr>Mat_data := take startrow (Mat_data dm) @ Mat_data d
                                @ drop (startrow + Mat_rows d) (Mat_data dm)\<rparr>"
  have copy: "copyTo_rowRange cv d dm startrow = Inr dm'"
    using Cons.prems(2) shape by (simp add: copyTo_rowRange_def dm'_def Let_def)
  have fits: "startrow + Mat_rows d \<le> length (Mat_data dm)"
    using Cons.prems(2) by (simp add: Mat_rows_def)
  have rows': "Mat_rows dm' = Mat_rows dm"
    using fits by (simp add: dm'_def Mat_rows_def)
  have "copy_descriptors cv ds (startrow + Mat_rows d) dm' =
          Inr (dm'\<lparr>Mat_data := take (startrow + Mat_rows d) (Mat_data dm') @ concat (map Mat_data ds)
                 @ drop (startrow + Mat_rows d + sum_list (map Mat_rows ds)) (Mat_data dm')\<rparr>)"
  proof (rule Cons.IH)
    show "\<forall>d\<in>set ds. \<not> Mat_empty d \<and> Mat_type d = Mat_type dm' \<and> Mat_cols d = Mat_cols dm'"
      using Cons.prems(1) by (simp add: dm'_def)
    show "startrow + Mat_rows d + sum_list (map Mat_rows ds) \<le> Mat_rows dm'"
      using Cons.prems(2) rows' by simp
  qed
  moreover have "take (startrow + Mat_rows d) (Mat_data dm') = take startrow (Mat_data dm) @ Mat_data d"
    using fits by (simp add: dm'_def Mat_rows_def)
  moreover have "drop (startrow + Mat_rows d + sum_list (map Mat_rows ds)) (Mat_data dm') =
                 drop (startrow + Mat_rows d + sum_list (map Mat_rows ds)) (Mat_data dm)"
    using fits by (simp add: dm'_def Mat_rows_def add.commute add.left_commute)
  ultimately show ?case
    by (simp add: copy dm'_def add.assoc)
qed

lemma Mat_create_shape:
  "Mat_rows (Mat_create cv m nrows ncols ty) = nrows"
  "Mat_cols (Mat_create cv m nrows ncols ty) = ncols"
  "Mat_type (Mat_create cv m nrows ncols ty) = ty"
  by (simp_all add: Mat_create_def Mat_rows_def)

lemma Mat_with_data:
  "Mat_type m = ty \<Longrightarrow> Mat_cols m = ncols
   \<Longrightarrow> m\<lparr>Mat_data := rows\<rparr> = \<lparr>Mat_type = ty, Mat_cols = ncols, Mat_data = rows\<rparr>"
  by (cases m) simp

lemma backend_contractD:
  assumes "backend_contract outs" and "(kps, d) \<in> set outs"
  shows "length kps = Mat_rows d" and "Mat_rows d = 0 \<or> 0 < Mat_cols d"
    and "(kps', d') \<in> set outs \<Longrightarrow> Mat_rows d = 0 \<or> Mat_rows d' = 0
          \<or> (Mat_type d = Mat_type d' \<and> Mat_cols d = Mat_cols d')"
proof -
  have single: "\<forall>p\<in>set outs. length (fst p) = Mat_rows (snd p)
                  \<and> (Mat_rows (snd p) = 0 \<or> 0 < Mat_cols (snd p))"
    and pairs: "\<forall>p\<in>set outs. \<forall>q\<in>set outs. Mat_rows (snd p) = 0 \<or> Mat_rows (snd q) = 0
                  \<or> (Mat_type (snd p) = Mat_type (snd q) \<and> Mat_cols (snd p) = Mat_cols (snd q))"
    using assms(1) by (simp_all add: backend_contract_def list_all_iff split_def)
  from single assms(2) show "length kps = Mat_rows d" by fastforce
  from single assms(2) show "Mat_rows d = 0 \<or> 0 < Mat_cols d" by fastforce
  assume "(kps', d') \<in> set outs"
  with pairs assms(2) show "Mat_rows d = 0 \<or> Mat_rows d' = 0
          \<or> (Mat_type d = Mat_type d' \<and> Mat_cols d = Mat_cols d')"
    by fastforce
qed

lemma contract_row_total:
  assumes "backend_contract outs"
  shows "length (concat (map fst outs)) = sum_list (map Mat_rows (map snd outs))"
proof -
  have "map (length \<circ> fst) outs = map (Mat_rows \<circ> snd) outs"
    using backend_contractD(1)[OF assms] by (intro map_cong) auto
  then show ?thesis by (simp only: length_concat map_map)
qed

text \<open>
  The merge in closed form when it succeeds: for outputs that satisfy the backend
  contract and of which none is empty, the keypoints are the per-sample keypoint
  lists concatenated in slot order, and the descriptors are the per-sample rows
  concatenated in the same order, in a matrix of the samples' width and type, one row
  per keypoint.
\<close>

lemma merge_slots_concat:
  assumes "backend_contract (out0 # outs)"
    and "\<forall>p\<in>set (out0 # outs). \<not> Mat_empty (snd p)"
  shows "merge_slots cv descriptors_in (out0 # outs) =
           Inr (concat (map fst (out0 # outs)),
                \<lparr>Mat_type = Mat_type (snd out0), Mat_cols = Mat_cols (snd out0),
                 Mat_data = concat (map (Mat_data \<circ> snd) (out0 # outs))\<rparr>)"
proof -
  let ?outs = "out0 # outs"
  let ?n = "length (concat (map fst ?outs))"
  let ?created = "Mat_create cv descriptors_in ?n (Mat_cols (snd out0)) (Mat_type (snd out0))"
  have first: "find (\<lambda>d. \<not> Mat_empty d) (map snd ?outs) = Some (snd out0)"
    using assms(2) by simp
  have prepared: "prepare_outputs cv descriptors_in ?outs = (concat (map fst ?outs), ?created)"
    unfolding prepare_outputs_def Let_def first by simp
  have in0: "(fst out0, snd out0) \<in> set ?outs" by simp
  have rows0: "Mat_rows (snd out0) \<noteq> 0"
    using assms(2) by (simp add: Mat_empty_def)
  have shapes: "\<forall>d\<in>set (map snd ?outs). \<not> Mat_empty d \<and> Mat_type d = Mat_type ?created
                  \<and> Mat_cols d = Mat_cols ?created"
  proof
    fix d assume d: "d \<in> set (map snd ?outs)"
    then obtain p where p: "p \<in> set ?outs" "d = snd p"
      unfolding set_map by blast
    then have ind: "(fst p, d) \<in> set ?outs" by simp
    have ne: "\<not> Mat_empty d" using assms(2) ind by fastforce
    then have "Mat_rows d \<noteq> 0" by (simp add: Mat_empty_def)
    with backend_contractD(3)[OF assms(1) ind in0] rows0 ne
    show "\<not> Mat_empty d \<and> Mat_type d = Mat_type ?created \<and> Mat_cols d = Mat_cols ?created"
      by (simp add: Mat_create_shape)
  qed
  have total: "sum_list (map Mat_rows (map snd ?outs)) = ?n"
    using contract_row_total[OF assms(1)] by simp
  have len: "length (Mat_data ?created) = ?n"
    using Mat_create_shape(1)[of cv descriptors_in ?n "Mat_cols (snd out0)" "Mat_type (snd out0)"]
    by (simp add: Mat_rows_def)
  have "copy_descriptors cv (map snd ?outs) 0 ?created =
          Inr (?created\<lparr>Mat_data := take 0 (Mat_data ?created)
                 @ concat (map Mat_data (map snd ?outs))
                 @ drop (0 + sum_list (map Mat_rows (map snd ?outs))) (Mat_data ?created)\<rparr>)"
  proof (rule copy_descriptors_write)
    show "\<forall>d\<in>set (map snd ?outs). \<not> Mat_empty d \<and> Mat_type d = Mat_type ?created
            \<and> Mat_cols d = Mat_cols ?created"
      by (rule shapes)
    show "0 + sum_list (map Mat_rows (map snd ?outs)) \<le> Mat_rows ?created"
      unfolding total Mat_create_shape by simp
  qed
  also have "\<dots> = Inr (?created\<lparr>Mat_data := concat (map (Mat_data \<circ> snd) ?outs)\<rparr>)"
    unfolding total using len by simp
  also have "\<dots> = Inr \<lparr>Mat_type = Mat_type (snd out0), Mat_cols = Mat_cols (snd out0),
                          Mat_data = concat (map (Mat_data \<circ> snd) ?outs)\<rparr>"
    by (simp add: Mat_with_data Mat_create_shape)
  finally show ?thesis
    unfolding merge_slots_def prepared by simp
qed

text \<open>
  So when the per-sample outputs satisfy the backend contract and none of them is
  empty, \<open>detectAndCompute\<close> returns, under any schedule, the per-sample keypoint
  lists concatenated in sample-plan order and a matrix whose rows are the per-sample
  descriptor rows concatenated in the same order, one row per keypoint.
\<close>

lemma detectAndCompute_concatenates:
  assumes "schedule_of (length (fst sample_params)) sched"
    and "backend_contract (per_sample_outputs cv base image_mat mask_mat flag)"
    and "\<forall>p\<in>set (per_sample_outputs cv base image_mat mask_mat flag). \<not> Mat_empty (snd p)"
  shows "\<exists>descriptors_mat.
           detectAndCompute cv (Some base) sched image_mat mask_mat keypoints_in descriptors_in flag =
             Inr (concat (map fst (per_sample_outputs cv base image_mat mask_mat flag)),
                  descriptors_mat)
           \<and> Mat_data descriptors_mat =
               concat (map (Mat_data \<circ> snd) (per_sample_outputs cv base image_mat mask_mat flag))
           \<and> length (concat (map fst (per_sample_outputs cv base image_mat mask_mat flag))) =
               Mat_rows descriptors_mat"
proof -
  let ?outs = "per_sample_outputs cv base image_mat mask_mat flag"
  have "length ?outs = 43"
    by (simp add: per_sample_outputs_def sample_params_length)
  then obtain out0 outs where outs: "?outs = out0 # outs"
    by (cases ?outs) simp_all
  have rows: "length (concat (map fst ?outs)) = length (concat (map (Mat_data \<circ> snd) ?outs))"
    using contract_row_total[OF assms(2)] by (simp add: length_concat Mat_rows_def o_def)
  have "merge_slots cv descriptors_in ?outs =
          Inr (concat (map fst ?outs),
               \<lparr>Mat_type = Mat_type (snd out0), Mat_cols = Mat_cols (snd out0),
                Mat_data = concat (map (Mat_data \<circ> snd) ?outs)\<rparr>)"
    using assms(2,3) unfolding outs by (rule merge_slots_concat)
  then show ?thesis
    unfolding detectAndCompute_merge[OF assms(1)] using rows by (simp add: Mat_rows_def)
qed

subsection \<open>The example inputs\<close>

lemma example_schedules:
  "schedule_of (length (fst sample_params)) [0..<43]"
  "schedule_of (length (fst sample_params)) (rev [0..<43])"
  by (simp_all add: schedule_of_def sample_params_length)

lemma example_cv_impl:
  "detectAndComputeImpl example_cv (Some base) src_image src_mask keypoints_in tilt phi flag =
     Inr (base src_image
            (if Mat_empty src_mask then Mat_filled (Mat_size src_image) CV_8UC1 255 else src_mask)
            keypoints_in flag)"
  by (simp add: detectAndComputeImpl_def warp_sample_def invert_keypoints_def example_cv_def
      Let_def split_def)

lemma example_outputs:
  "per_sample_outputs example_cv example_backend image_mat mask_mat flag =
     replicate 43 ([example_keypoint 1 1], example_descriptor)"
  "per_sample_outputs example_cv example_blind_backend image_mat mask_mat flag =
     replicate 43 ([], Mat_default)"
  "per_sample_outputs example_cv example_flag_backend image_mat mask_mat True =
     replicate 43 ([], \<lparr>Mat_type = 5, Mat_cols = 1, Mat_data = []\<rparr>)"
  "per_sample_outputs example_cv example_flag_backend image_mat mask_mat False =
     replicate 43 ([example_keypoint 1 1], example_descriptor)"
  by (simp_all add: per_sample_outputs_def example_cv_impl sample_params_length
      example_backend_def example_blind_backend_def example_flag_backend_def map_replicate_const)

lemma replicate_43: "replicate 43 x = x # replicate 42 x"
  by (simp add: numeral_eq_Suc)

lemma backend_contract_replicate:
  "length kps = Mat_rows d \<Longrightarrow> Mat_rows d = 0 \<or> 0 < Mat_cols d
   \<Longrightarrow> backend_contract (replicate n (kps, d))"
  by (auto simp: backend_contract_def list_all_iff)

lemma example_contracts:
  "backend_contract (replicate 43 ([example_keypoint 1 1], example_descriptor))"
  "backend_contract (replicate 43 ([], Mat_default))"
  "backend_contract (replicate 43 ([], \<lparr>Mat_type = 5, Mat_cols = 1, Mat_data = []\<rparr>))"
  by (rule backend_contract_replicate; simp add: Mat_rows_def example_descriptor_def Mat_default_def)+

lemma example_merged:
  "merge_slots example_cv descriptors_in (replicate 43 ([example_keypoint 1 1], example_descriptor)) =
     Inr (replicate 43 (example_keypoint 1 1),
          \<lparr>Mat_type = 5, Mat_cols = 1, Mat_data = replicate 43 [7]\<rparr>)"
proof -
  have filled: "\<forall>p\<in>set (replicate 43 ([example_keypoint 1 1], example_descriptor)).
                  \<not> Mat_empty (snd p)"
    by (simp add: Mat_empty_def Mat_rows_def example_descriptor_def)
  have "merge_slots example_cv descriptors_in
          (([example_keypoint 1 1], example_descriptor)
           # replicate 42 ([example_keypoint 1 1], example_descriptor)) =
        Inr (concat (map fst (([example_keypoint 1 1], example_descriptor)
                              # replicate 42 ([example_keypoint 1 1], example_descriptor))),
             \<lparr>Mat_type = Mat_type (snd ([example_keypoint 1 1], example_descriptor)),
              Mat_cols = Mat_cols (snd ([example_keypoint 1 1], example_descriptor)),
              Mat_data = concat (map (Mat_data \<circ> snd)
                (([example_keypoint 1 1], example_descriptor)
                 # replicate 42 ([example_keypoint 1 1], example_descriptor)))\<rparr>)"
    by (rule merge_slots_concat) (use example_contracts(1) filled in \<open>simp_all only: replicate_43\<close>)
  then show ?thesis
    unfolding replicate_43[symmetric]
    by (simp add: example_descriptor_def concat_replicate_single)
qed

text \<open>
  Every sample but the first has a tilt other than 1, so it is blurred and shrunk.
\<close>

lemma sample_params_first:
  "fst sample_params ! 0 = 1" "snd sample_params ! 0 = 0"
  by (simp_all add: sample_params_closed)

lemma sample_params_tilted:
  assumes "0 < i" and "i < 43"
  shows "fst sample_params ! i \<noteq> 1"
proof -
  let ?ts = "concat (map (\<lambda>(i, n). replicate n (2 powr (0.5 * real i)))
                      [(1, 4), (2, 5), (3, 8), (4, 10), (5, 15 :: nat)])"
  have len: "length ?ts = 42" by simp
  have "fst sample_params ! i = ?ts ! (i - 1)"
    using assms(1) by (simp add: sample_params_closed nth_Cons')
  moreover have "?ts ! (i - 1) \<in> set ?ts"
    using assms len by (intro nth_mem) linarith
  moreover have "set ?ts = {sqrt 2, 2, 2 * sqrt 2, 4, 4 * sqrt 2}"
    using tilt_levels by (simp add: insert_commute)
  moreover have "1 \<notin> {sqrt 2, 2, 2 * sqrt 2, 4, 4 * sqrt 2}"
    using sqrt2_bounds by simp
  ultimately show ?thesis by metis
qed

lemma example_narrow_impl:
  "detectAndComputeImpl example_narrow_cv (Some example_width_backend) example_image src_mask
       keypoints_in tilt phi flag =
     Inr (if tilt \<noteq> 1 then ([], example_no_rows)
          else ([example_keypoint 1 1], example_descriptor))"
  by (simp add: detectAndComputeImpl_def warp_sample_def invert_keypoints_def example_narrow_cv_def
      example_cv_def example_width_backend_def example_image_def Let_def split_def)

lemma example_narrow_outputs:
  "per_sample_outputs example_narrow_cv example_width_backend example_image mask_mat flag =
     ([example_keypoint 1 1], example_descriptor) # replicate 42 ([], example_no_rows)"
proof (rule nth_equalityI)
  show "length (per_sample_outputs example_narrow_cv example_width_backend example_image mask_mat flag) =
        length (([example_keypoint 1 1], example_descriptor) # replicate 42 ([], example_no_rows))"
    by (simp add: per_sample_outputs_def sample_params_length)
next
  fix i
  assume "i < length (per_sample_outputs example_narrow_cv example_width_backend example_image
                        mask_mat flag)"
  then have i: "i < 43"
    by (simp add: per_sample_outputs_def sample_params_length)
  show "per_sample_outputs example_narrow_cv example_width_backend example_image mask_mat flag ! i =
        (([example_keypoint 1 1], example_descriptor) # replicate 42 ([], example_no_rows)) ! i"
  proof (cases "i = 0")
    case True
    then show ?thesis
      using i by (simp add: per_sample_outputs_def sample_params_length example_narrow_impl
          sample_params_first)
  next
    case False
    then have "fst sample_params ! i \<noteq> 1"
      using i sample_params_tilted by simp
    then show ?thesis
      using i False by (simp add: per_sample_outputs_def sample_params_length example_narrow_impl
          nth_Cons')
  qed
qed

subsection \<open>The claims about detection\<close>

text \<open>
  The identity sample as the code computes it, for any OpenCV routines and any
  backend: no rotation, blur, resize or warp enters the result. The backend is called
  on the unmodified image, on the keypoint slot and flag as given, and on the source
  mask when that is not empty, otherwise on a full-validity mask (all 255,
  \<^verbatim>\<open>CV_8UC1\<close>) of the image's size. Its descriptors are returned as they are, and its
  keypoints pass through the inversion with the \<^verbatim>\<open>Matx32f::eye()\<close> matrix.
\<close>

lemma identity_sample_call:
  "detectAndComputeImpl cv (Some base) src_image src_mask keypoints_in 1 0 flag =
     (case base src_image
             (if Mat_empty src_mask then Mat_filled (Mat_size src_image) CV_8UC1 255 else src_mask)
             keypoints_in flag of
        (detected, descriptors_mat) \<Rightarrow>
          Inr (invert_keypoints cv Matx32f_eye detected, descriptors_mat))"
  by (simp add: detectAndComputeImpl_def warp_sample_def Let_def split_def)

text \<open>
  C9 (the code at a failing input). The claim is that for the identity sample the
  keypoint inversion goes through the identity affine map and leaves every keypoint
  coordinate unchanged, so that the per-sample output is the backend's own output.
  The source declares the affine map as \<^verbatim>\<open>cv::Matx32f\<close>, three rows and two columns,
  and initialises it with \<^verbatim>\<open>eye()\<close>: the six stored values are 1, 0, 0, 1, 0, 0. As the
  two-row, three-column affine map that the source itself addresses at (0, 2) and
  (1, 2) and hands to \<^verbatim>\<open>cv::invertAffineTransform\<close>, these values are the singular map
  \<open>[[1, 0, 0], [1, 0, 0]]\<close>, not the identity \<open>[[1, 0, 0], [0, 1, 0]]\<close>. With the
  arithmetic of \<^verbatim>\<open>cv::invertAffineTransform\<close> and \<^verbatim>\<open>cv::transform\<close> its inverse is the zero
  map, and a keypoint the backend finds at (1, 1) in the unwarped image comes out of
  the identity sample at (0, 0). On the two-row identity the same arithmetic leaves
  every point where it is.
\<close>

theorem identity_sample_moves_keypoints:
  "Matx32f_eye = [1, 0, 0, 1, 0, 0]
   \<and> invertAffineTransform example_affine_cv Matx32f_eye = [0, 0, 0, 0, 0, 0]
   \<and> invert_keypoints example_affine_cv Matx32f_eye [example_keypoint 1 1] = [example_keypoint 0 0]
   \<and> example_backend example_image example_image [] False =
       ([example_keypoint 1 1], example_descriptor)
   \<and> detectAndComputeImpl example_affine_cv (Some example_backend) example_image example_image
         [] 1 0 False =
       Inr ([example_keypoint 0 0], example_descriptor)
   \<and> pt (example_keypoint 0 0) \<noteq> pt (example_keypoint 1 1)
   \<and> (\<forall>point. transform_Vec2f example_affine_cv point
                  (invertAffineTransform example_affine_cv [1, 0, 0, 0, 1, 0]) = point)"
proof (intro conjI)
  show "Matx32f_eye = [1, 0, 0, 1, 0, 0]"
    by (simp add: Matx32f_eye_def)
  show zero: "invertAffineTransform example_affine_cv Matx32f_eye = [0, 0, 0, 0, 0, 0]"
    by (simp add: example_affine_cv_def affine_inverse_def Matx32f_eye_def)
  show "example_backend example_image example_image [] False =
          ([example_keypoint 1 1], example_descriptor)"
    by (simp add: example_backend_def)
  show moved: "invert_keypoints example_affine_cv Matx32f_eye [example_keypoint 1 1] =
                 [example_keypoint 0 0]"
    unfolding invert_keypoints_def Let_def zero
    by (simp add: example_affine_cv_def affine_apply_def example_keypoint_def)
  then show "detectAndComputeImpl example_affine_cv (Some example_backend) example_image example_image
               [] 1 0 False =
             Inr ([example_keypoint 0 0], example_descriptor)"
    by (simp add: identity_sample_call example_backend_def)
  show "pt (example_keypoint 0 0) \<noteq> pt (example_keypoint 1 1)"
    by (simp add: example_keypoint_def)
  show "\<forall>point. transform_Vec2f example_affine_cv point
                  (invertAffineTransform example_affine_cv [1, 0, 0, 0, 1, 0]) = point"
    by (simp add: example_affine_cv_def affine_inverse_def affine_apply_def)
qed

text \<open>
  C2 (as stated, refuted). The claim is that \<^verbatim>\<open>useProvidedKeypoints = true\<close> and \<^verbatim>\<open>false\<close>
  give the same output for every backend because the flag does not reach the
  per-sample calls. The flag is bound into every task and passed on to the backend,
  together with an empty keypoint slot. A backend that describes the provided
  keypoints when told to returns an empty descriptor matrix in every sample for
  \<^verbatim>\<open>true\<close>, on which the merge fails its assertion, and finds 43 keypoints for \<^verbatim>\<open>false\<close>.
\<close>

theorem useProvidedKeypoints_counterexample:
  "schedule_of (length (fst sample_params)) [0..<43]
   \<and> detectAndCompute example_cv (Some example_flag_backend) [0..<43] example_image Mat_default
       [] Mat_default True = Inl AssertionFailed
   \<and> detectAndCompute example_cv (Some example_flag_backend) [0..<43] example_image Mat_default
       [] Mat_default False =
       Inr (replicate 43 (example_keypoint 1 1),
            \<lparr>Mat_type = 5, Mat_cols = 1, Mat_data = replicate 43 [7]\<rparr>)"
proof (intro conjI)
  show "schedule_of (length (fst sample_params)) [0..<43]"
    by (rule example_schedules(1))
  have "\<exists>p\<in>set (per_sample_outputs example_cv example_flag_backend example_image Mat_default True).
          Mat_empty (snd p)"
    unfolding example_outputs by (simp add: Mat_empty_def Mat_rows_def)
  then show "detectAndCompute example_cv (Some example_flag_backend) [0..<43] example_image
               Mat_default [] Mat_default True = Inl AssertionFailed"
    by (rule detectAndCompute_empty_sample[OF example_schedules(1)])
  show "detectAndCompute example_cv (Some example_flag_backend) [0..<43] example_image Mat_default
          [] Mat_default False =
        Inr (replicate 43 (example_keypoint 1 1),
             \<lparr>Mat_type = 5, Mat_cols = 1, Mat_data = replicate 43 [7]\<rparr>)"
    unfolding detectAndCompute_merge[OF example_schedules(1)] example_outputs
    by (rule example_merged)
qed

text \<open>
  C2 (amended). Under any schedule, \<open>detectAndCompute\<close> is the merge of the per-sample
  results in which, for every sample of the plan, the backend is called on that
  sample's warped image and mask with an empty keypoint list and with the caller's
  flag, unchanged. So for every backend and flag the output does not depend on the
  keypoints the caller provides, and the outputs for \<^verbatim>\<open>true\<close> and \<^verbatim>\<open>false\<close> coincide for
  every backend whose result on an empty keypoint list does not depend on the flag.
\<close>

theorem useProvidedKeypoints_forwarded:
  assumes "schedule_of (length (fst sample_params)) sched"
  shows "detectAndCompute cv (Some base) sched image_mat mask_mat keypoints_in descriptors_in flag =
           merge_slots cv descriptors_in
             (map (\<lambda>i. case warp_sample cv image_mat mask_mat
                               (fst sample_params ! i) (snd sample_params ! i) of
                         (affine, warped_image, warped_mask) \<Rightarrow>
                           (case base warped_image warped_mask [] flag of
                              (detected, descriptors_mat) \<Rightarrow>
                                (invert_keypoints cv affine detected, descriptors_mat)))
                [0..<length (fst sample_params)])
         \<and> detectAndCompute cv (Some base) sched image_mat mask_mat keypoints_in descriptors_in flag =
             detectAndCompute cv (Some base) sched image_mat mask_mat [] descriptors_in flag
         \<and> ((\<forall>image_mat mask_mat. base image_mat mask_mat [] True = base image_mat mask_mat [] False)
              \<longrightarrow> detectAndCompute cv (Some base) sched image_mat mask_mat keypoints_in descriptors_in True =
                   detectAndCompute cv (Some base) sched image_mat mask_mat keypoints_in descriptors_in False)"
proof (intro conjI impI)
  show "detectAndCompute cv (Some base) sched image_mat mask_mat keypoints_in descriptors_in flag =
           merge_slots cv descriptors_in
             (map (\<lambda>i. case warp_sample cv image_mat mask_mat
                               (fst sample_params ! i) (snd sample_params ! i) of
                         (affine, warped_image, warped_mask) \<Rightarrow>
                           (case base warped_image warped_mask [] flag of
                              (detected, descriptors_mat) \<Rightarrow>
                                (invert_keypoints cv affine detected, descriptors_mat)))
                [0..<length (fst sample_params)])"
    unfolding detectAndCompute_merge[OF assms] per_sample_outputs_forward ..
  show "detectAndCompute cv (Some base) sched image_mat mask_mat keypoints_in descriptors_in flag =
          detectAndCompute cv (Some base) sched image_mat mask_mat [] descriptors_in flag"
    by (rule detectAndCompute_ignores_keypoints)
  assume same: "\<forall>image_mat mask_mat. base image_mat mask_mat [] True = base image_mat mask_mat [] False"
  show "detectAndCompute cv (Some base) sched image_mat mask_mat keypoints_in descriptors_in True =
        detectAndCompute cv (Some base) sched image_mat mask_mat keypoints_in descriptors_in False"
    unfolding detectAndCompute_merge[OF assms] per_sample_outputs_flag[of base, OF same] ..
qed

theorem useProvidedKeypoints_forwarded_witness:
  "schedule_of (length (fst sample_params)) [0..<43]
   \<and> detectAndCompute example_cv (Some example_flag_backend) [0..<43] example_image Mat_default
         [example_keypoint 0 0] Mat_default True =
       merge_slots example_cv Mat_default
         (replicate 43 ([], \<lparr>Mat_type = 5, Mat_cols = 1, Mat_data = []\<rparr>))
   \<and> detectAndCompute example_cv (Some example_flag_backend) [0..<43] example_image Mat_default
         [example_keypoint 0 0] Mat_default False =
       merge_slots example_cv Mat_default
         (replicate 43 ([example_keypoint 1 1], example_descriptor))
   \<and> detectAndCompute example_cv (Some example_flag_backend) [0..<43] example_image Mat_default
         [example_keypoint 0 0] Mat_default True =
       detectAndCompute example_cv (Some example_flag_backend) [0..<43] example_image Mat_default
         [] Mat_default True
   \<and> (\<forall>image_mat mask_mat. example_backend image_mat mask_mat [] True =
                              example_backend image_mat mask_mat [] False)
   \<and> detectAndCompute example_cv (Some example_backend) [0..<43] example_image Mat_default
         [example_keypoint 0 0] Mat_default True =
       detectAndCompute example_cv (Some example_backend) [0..<43] example_image Mat_default
         [example_keypoint 0 0] Mat_default False"
proof -
  have same: "\<forall>image_mat mask_mat. example_backend image_mat mask_mat [] True =
                                      example_backend image_mat mask_mat [] False"
    by (simp add: example_backend_def)
  note sensitive_true =
    useProvidedKeypoints_forwarded [of "[0..<43]" example_cv example_flag_backend example_image
        Mat_default "[example_keypoint 0 0]" Mat_default True, OF example_schedules(1),
        folded per_sample_outputs_forward, unfolded example_outputs]
  note sensitive_false =
    useProvidedKeypoints_forwarded [of "[0..<43]" example_cv example_flag_backend example_image
        Mat_default "[example_keypoint 0 0]" Mat_default False, OF example_schedules(1),
        folded per_sample_outputs_forward, unfolded example_outputs]
  note insensitive =
    useProvidedKeypoints_forwarded [of "[0..<43]" example_cv example_backend example_image
        Mat_default "[example_keypoint 0 0]" Mat_default True, OF example_schedules(1)]
  show ?thesis
    by (intro conjI example_schedules(1) same
        conjunct1 [OF sensitive_true] conjunct1 [OF sensitive_false]
        conjunct1 [OF conjunct2 [OF sensitive_true]]
        mp [OF conjunct2 [OF conjunct2 [OF insensitive]] same])
qed

text \<open>
  C3 (the code at a failing input). The claim is that the returned keypoint count
  equals the returned matrix's row count, and that both outputs are empty when every
  sample yields zero keypoints. When the backend finds nothing in any sample,
  \<open>detectAndCompute\<close> does not return at all: no per-sample matrix is non-empty, so
  the output matrix is neither created nor released, and the copy loop then hands
  the first empty per-sample matrix to \<^verbatim>\<open>copyTo\<close> on a row range, which fails an OpenCV
  assertion, whether the caller's matrix is fresh or reused. When the exception
  leaves the function the caller's keypoints have been cleared and the caller's
  descriptor matrix is as it was passed in: a reused one-row matrix is still there,
  next to zero keypoints.
\<close>

theorem detectAndCompute_keeps_stale_descriptors:
  "schedule_of (length (fst sample_params)) [0..<43]
   \<and> backend_contract
       (per_sample_outputs example_cv example_blind_backend example_image Mat_default False)
   \<and> prepare_outputs example_cv example_descriptor
       (per_sample_outputs example_cv example_blind_backend example_image Mat_default False) =
       ([], example_descriptor)
   \<and> detectAndCompute example_cv (Some example_blind_backend) [0..<43] example_image Mat_default
       [] example_descriptor False = Inl AssertionFailed
   \<and> detectAndCompute example_cv (Some example_blind_backend) [0..<43] example_image Mat_default
       [] Mat_default False = Inl AssertionFailed
   \<and> Mat_rows example_descriptor = 1 \<and> \<not> Mat_empty example_descriptor"
proof -
  have contract: "backend_contract
       (per_sample_outputs example_cv example_blind_backend example_image Mat_default False)"
    by (simp only: example_outputs example_contracts)
  have none_found: "find (\<lambda>d. \<not> Mat_empty d)
                   (map snd (replicate 43 ([] :: KeyPoint list, Mat_default))) = None"
    by (simp add: find_None_iff Mat_empty_def Mat_rows_def Mat_default_def)
  have prepared: "prepare_outputs example_cv example_descriptor
       (per_sample_outputs example_cv example_blind_backend example_image Mat_default False) =
       ([], example_descriptor)"
    unfolding example_outputs prepare_outputs_def Let_def none_found by simp
  have empty: "\<exists>p\<in>set (per_sample_outputs example_cv example_blind_backend example_image
                          Mat_default False). Mat_empty (snd p)"
    unfolding example_outputs by (simp add: Mat_empty_def Mat_rows_def Mat_default_def)
  have throws: "detectAndCompute example_cv (Some example_blind_backend) [0..<43] example_image
                  Mat_default [] descriptors_in False = Inl AssertionFailed" for descriptors_in
    by (rule detectAndCompute_empty_sample[OF example_schedules(1) empty])
  have "Mat_rows example_descriptor = 1 \<and> \<not> Mat_empty example_descriptor"
    by (simp add: example_descriptor_def Mat_rows_def Mat_empty_def)
  then show ?thesis
    using example_schedules(1) contract prepared throws by blast
qed

text \<open>
  C7 (the code at a failing input). The claim is that the output is the concatenation
  of the per-sample keypoint lists and descriptor rows in sample-plan order,
  whatever the order in which the tasks complete. Take a backend that finds one
  keypoint in the identity sample and nothing in the 42 tilted samples, and a fresh
  output matrix. The concatenation the claim promises is that one keypoint with its
  one descriptor row. Under either schedule \<open>detectAndCompute\<close> fails an OpenCV
  assertion instead: the copy loop hands the empty matrix of the second sample to
  \<^verbatim>\<open>copyTo\<close> on a row range.
\<close>

theorem detectAndCompute_merge_fails_on_empty_sample:
  "schedule_of (length (fst sample_params)) [0..<43]
   \<and> schedule_of (length (fst sample_params)) (rev [0..<43])
   \<and> per_sample_outputs example_narrow_cv example_width_backend example_image Mat_default False =
       ([example_keypoint 1 1], example_descriptor) # replicate 42 ([], example_no_rows)
   \<and> backend_contract
       (per_sample_outputs example_narrow_cv example_width_backend example_image Mat_default False)
   \<and> concat (map fst
       (per_sample_outputs example_narrow_cv example_width_backend example_image Mat_default False)) =
       [example_keypoint 1 1]
   \<and> concat (map (Mat_data \<circ> snd)
       (per_sample_outputs example_narrow_cv example_width_backend example_image Mat_default False)) =
       [[7]]
   \<and> detectAndCompute example_narrow_cv (Some example_width_backend) [0..<43] example_image
       Mat_default [] Mat_default False = Inl AssertionFailed
   \<and> detectAndCompute example_narrow_cv (Some example_width_backend) (rev [0..<43]) example_image
       Mat_default [] Mat_default False = Inl AssertionFailed"
proof -
  let ?outs = "per_sample_outputs example_narrow_cv example_width_backend example_image
                 Mat_default False"
  have outs: "?outs = ([example_keypoint 1 1], example_descriptor) # replicate 42 ([], example_no_rows)"
    by (rule example_narrow_outputs)
  have contract: "backend_contract ?outs"
    unfolding outs
    by (simp add: backend_contract_def list_all_iff Mat_rows_def example_descriptor_def
        example_no_rows_def)
  have keys: "concat (map fst ?outs) = [example_keypoint 1 1]"
    unfolding outs by simp
  have rows: "concat (map (Mat_data \<circ> snd) ?outs) = [[7]]"
    unfolding outs by (simp add: example_descriptor_def example_no_rows_def)
  have empty: "\<exists>p\<in>set ?outs. Mat_empty (snd p)"
    unfolding outs by (simp add: Mat_empty_def Mat_rows_def example_no_rows_def)
  have throws: "detectAndCompute example_narrow_cv (Some example_width_backend) sched example_image
                  Mat_default [] Mat_default False = Inl AssertionFailed"
    if "schedule_of (length (fst sample_params)) sched" for sched
    by (rule detectAndCompute_empty_sample[OF that empty])
  show ?thesis
    using example_schedules outs contract keys rows
      throws[OF example_schedules(1)] throws[OF example_schedules(2)]
    by blast
qed

end
